theory Spec2Isabelle
  imports Complex_Main "HOL-Library.Multiset" "HOL-Library.Sublist" "HOL-Library.Log_Nat"
begin

section \<open>Python strings\<close>

text \<open>
  A Python \<open>str\<close> is modelled as a \<open>string\<close> whose characters are the code points
  below 256. On that range \<open>str.lower\<close> moves \<open>A\<close>..\<open>Z\<close> and the upper-case letters
  192..222 (without the multiplication sign 215) up by 32, and \<open>str.strip\<close> removes the
  characters for which \<open>str.isspace\<close> holds from both ends.
\<close>

definition lower_char :: "char \<Rightarrow> char" where
  "lower_char c =
     (let n = (of_char c :: nat)
      in if (65 \<le> n \<and> n \<le> 90) \<or> (192 \<le> n \<and> n \<le> 222 \<and> n \<noteq> 215)
         then char_of (n + 32) else c)"

definition str_lower :: "string \<Rightarrow> string" where
  "str_lower s = map lower_char s"

definition isspace :: "char \<Rightarrow> bool" where
  "isspace c = ((of_char c :: nat) \<in> {9, 10, 11, 12, 13, 28, 29, 30, 31, 32, 133, 160})"

definition str_strip :: "string \<Rightarrow> string" where
  "str_strip s = rev (dropWhile isspace (rev (dropWhile isspace s)))"

text \<open>The substring test \<open>a in b\<close> of two Python strings.\<close>

fun str_in :: "string \<Rightarrow> string \<Rightarrow> bool" where
  "str_in a [] = (a = [])"
| "str_in a (c # cs) = (take (length a) (c # cs) = a \<or> str_in a cs)"

section \<open>Python floats\<close>

text \<open>
  A Python \<open>float\<close> is an IEEE 754 binary64 number: a significand of 53 bits and a binary
  exponent. The result of \<open>+\<close>, \<open>*\<close> and \<open>/\<close> on floats, and the value of a literal such
  as \<open>0.7\<close>, is the exact result rounded to the nearest such number, ties going to the even
  significand. A float is modelled by the rational it denotes and the rounding by
  \<open>fl\<close>: for \<open>2^e \<le> |x| < 2^(e+1)\<close> (\<open>e\<close> is \<open>binade x\<close>) the floats near \<open>x\<close> are the
  multiples of \<open>2^(e-52)\<close>, and \<open>x\<close> is rounded to the nearest of them. The range of the
  exponent is left out: the numbers rounded below are 0 or lie between \<open>2^(-53)\<close> and 100,
  far from overflow and underflow.
\<close>

definition round_half_even :: "rat \<Rightarrow> int" where
  "round_half_even x =
     (let n = \<lfloor>x\<rfloor>; r = x - of_int n
      in if r < 1 / 2 then n else if 1 / 2 < r then n + 1 else if even n then n else n + 1)"

text \<open>The exponent \<open>e\<close> with \<open>2^e \<le> x < 2^(e+1)\<close>, for \<open>x > 0\<close>.\<close>

definition binade :: "rat \<Rightarrow> int" where
  "binade x = (if 1 \<le> x then bitlen \<lfloor>x\<rfloor> - 1 else - bitlen (\<lceil>1 / x\<rceil> - 1))"

definition fl_pos :: "rat \<Rightarrow> rat" where
  "fl_pos x = (let q = 2 powi (binade x - 52) in of_int (round_half_even (x / q)) * q)"

definition fl :: "rat \<Rightarrow> rat" where
  "fl x = (if x = 0 then 0 else if 0 < x then fl_pos x else - fl_pos (- x))"

section \<open>Skill matching (backend/utils/matching.py)\<close>

record partial_match =
  required_skill :: string
  user_skill :: string
  confidence :: rat

record skill_match =
  exact_matches :: "string list"
  partial_matches :: "partial_match list"
  missing_skills :: "string list"
  match_percentage :: rat
  total_required :: nat

definition skill_relationships :: "(string \<times> string list) list" where
  "skill_relationships =
    [(''javascript'', [''js'', ''node.js'', ''nodejs'', ''react'', ''angular'', ''vue'']),
     (''python'', [''django'', ''flask'', ''fastapi'', ''pandas'', ''numpy'']),
     (''java'', [''spring'', ''hibernate'', ''maven'', ''gradle'']),
     (''react'', [''javascript'', ''js'', ''jsx'', ''redux'']),
     (''angular'', [''javascript'', ''typescript'', ''rxjs'']),
     (''vue'', [''javascript'', ''vuex'', ''nuxt'']),
     (''sql'', [''mysql'', ''postgresql'', ''sqlite'', ''oracle'']),
     (''aws'', [''ec2'', ''s3'', ''lambda'', ''cloudformation'']),
     (''machine learning'',
        [''tensorflow'', ''pytorch'', ''scikit-learn'', ''keras'', ''pandas'', ''numpy'']),
     (''data science'', [''python'', ''r'', ''pandas'', ''numpy'', ''matplotlib'', ''jupyter''])]"

text \<open>\<open>skill_relationships.get(k, [])\<close>\<close>

definition relationships_get :: "string \<Rightarrow> string list" where
  "relationships_get k = (case map_of skill_relationships k of None \<Rightarrow> [] | Some v \<Rightarrow> v)"

fun find_partial_skill_match :: "string \<Rightarrow> string list \<Rightarrow> string option" where
  "find_partial_skill_match required [] = None"
| "find_partial_skill_match required (u # user_skills) =
     (let user_skill_lower = str_lower u
      in if required \<in> set (relationships_get user_skill_lower) then Some u
         else if user_skill_lower \<in> set (relationships_get required) then Some u
         else if length required > 3 \<and> length user_skill_lower > 3
                 \<and> (str_in required user_skill_lower \<or> str_in user_skill_lower required)
         then Some u
         else find_partial_skill_match required user_skills)"

text \<open>Truth value of an \<open>Optional[str]\<close>: \<open>None\<close> and the empty string are false.\<close>

fun truthy :: "string option \<Rightarrow> bool" where
  "truthy None = False"
| "truthy (Some s) = (s \<noteq> [])"

text \<open>
  The loop over \<open>required_skills\<close>; the accumulator holds the three lists
  \<open>exact_matches\<close>, \<open>partial_matches\<close> and \<open>missing_skills\<close>, each extended by \<open>append\<close>.
\<close>

fun match_loop ::
  "string list \<Rightarrow> string list \<Rightarrow> string list \<times> partial_match list \<times> string list
     \<Rightarrow> string list \<times> partial_match list \<times> string list" where
  "match_loop user_skills_lower [] acc = acc"
| "match_loop user_skills_lower (req_skill # rest) (exact, partial, missing) =
     (let req_skill_lower = str_lower req_skill
      in if req_skill_lower \<in> set user_skills_lower
         then match_loop user_skills_lower rest (exact @ [req_skill], partial, missing)
         else
           (let pm = find_partial_skill_match req_skill_lower user_skills_lower
            in if truthy pm
               then match_loop user_skills_lower rest
                      (exact,
                       partial @ [\<lparr>required_skill = req_skill, user_skill = the pm,
                                    confidence = fl (7 / 10)\<rparr>],
                       missing)
               else match_loop user_skills_lower rest (exact, partial, missing @ [req_skill])))"

text \<open>
  \<open>match_score\<close> and \<open>match_percentage\<close> are floats. The numerator
  \<open>len(exact_matches) * 1.0 + len(partial_matches) * 0.5\<close> is computed without rounding:
  the two lengths are counts of list items, far below \<open>2^52\<close> (a list of that many
  references does not fit the address space), such a count converts to a float exactly,
  its product with \<open>1.0\<close> or \<open>0.5\<close> is a float, and so is the sum, a multiple of \<open>1/2\<close>
  below \<open>2^53\<close> (lemma \<open>numerator_exact\<close> below). The quotient by \<open>total_required\<close> and the
  product with 100 are rounded. \<open>min(100, x)\<close> compares the int 100 with the float \<open>x\<close>
  by value.
\<close>

definition calculate_skill_match :: "string list \<Rightarrow> string list \<Rightarrow> skill_match" where
  "calculate_skill_match user_skills required_skills =
     (let user_skills_lower = map str_lower user_skills;
          (exact, partial, missing) = match_loop user_skills_lower required_skills ([], [], []);
          total = (if required_skills \<noteq> [] then length required_skills else 1);
          exact_weight = 1;
          partial_weight = 1 / 2;
          match_score = fl ((of_nat (length exact) * exact_weight
                          + of_nat (length partial) * partial_weight) / of_nat total)
      in \<lparr>exact_matches = exact, partial_matches = partial, missing_skills = missing,
          match_percentage = min 100 (fl (match_score * 100)), total_required = total\<rparr>)"

text \<open>
  The list a required skill is appended to by the loop body, as a function of the
  lower-cased user skills and the required skill.
\<close>

datatype skill_class = Exact | Partial | Missing

definition skill_class :: "string list \<Rightarrow> string \<Rightarrow> skill_class" where
  "skill_class user_skills_lower req_skill =
     (if str_lower req_skill \<in> set user_skills_lower then Exact
      else if truthy (find_partial_skill_match (str_lower req_skill) user_skills_lower)
      then Partial
      else Missing)"

definition mk_partial :: "string list \<Rightarrow> string \<Rightarrow> partial_match" where
  "mk_partial user_skills_lower req_skill =
     \<lparr>required_skill = req_skill,
      user_skill = the (find_partial_skill_match (str_lower req_skill) user_skills_lower),
      confidence = fl (7 / 10)\<rparr>"

section \<open>Deduplication of listings (backend/agents/simple_scraper_agent.py, scraper_agent.py)\<close>

text \<open>The dataclass \<open>JobListing\<close>.\<close>

record job_listing =
  title :: string
  company :: string
  location :: string
  description :: string
  url :: string
  salary :: "string option"
  date_posted :: "string option"
  job_type :: "string option"
  experience :: "string option"
  skills :: "string list option"

definition JobListing :: "string \<Rightarrow> string \<Rightarrow> string \<Rightarrow> string \<Rightarrow> string \<Rightarrow> job_listing" where
  "JobListing t c l d u =
     \<lparr>title = t, company = c, location = l, description = d, url = u, salary = None,
      date_posted = None, job_type = None, experience = None, skills = None\<rparr>"

text \<open>
  Both \<open>_remove_duplicates\<close> methods run the same loop over the jobs with a set \<open>seen\<close> of
  keys and the list \<open>unique_jobs\<close>; they differ in the key only, which is a parameter here.
\<close>

fun dedup_loop :: "('a \<Rightarrow> string) \<Rightarrow> 'a list \<Rightarrow> string set \<Rightarrow> 'a list \<Rightarrow> 'a list" where
  "dedup_loop key [] seen unique_jobs = unique_jobs"
| "dedup_loop key (job # jobs) seen unique_jobs =
     (if key job \<notin> seen
      then dedup_loop key jobs (insert (key job) seen) (unique_jobs @ [job])
      else dedup_loop key jobs seen unique_jobs)"

text \<open>
  \<open>SimpleScraperAgent._remove_duplicates\<close>: the key is
  \<open>f"{job.title.lower().strip()}|{job.company.lower().strip()}"\<close>.
\<close>

definition listing_key :: "job_listing \<Rightarrow> string" where
  "listing_key job =
     str_strip (str_lower (title job)) @ ''|'' @ str_strip (str_lower (company job))"

definition simple_remove_duplicates :: "job_listing list \<Rightarrow> job_listing list" where
  "simple_remove_duplicates jobs = dedup_loop listing_key jobs {} []"

text \<open>
  \<open>ScraperAgent._remove_duplicates\<close> works on dictionaries; the key is
  \<open>f"{job.get('title', '').lower()}_{job.get('company', '').lower()}"\<close>.
\<close>

definition dict_get :: "(string \<rightharpoonup> string) \<Rightarrow> string \<Rightarrow> string \<Rightarrow> string" where
  "dict_get d k dflt = (case d k of None \<Rightarrow> dflt | Some v \<Rightarrow> v)"

definition dict_key :: "(string \<rightharpoonup> string) \<Rightarrow> string" where
  "dict_key job =
     str_lower (dict_get job ''title'' '''') @ ''_'' @ str_lower (dict_get job ''company'' '''')"

definition remove_duplicates :: "(string \<rightharpoonup> string) list \<Rightarrow> (string \<rightharpoonup> string) list" where
  "remove_duplicates jobs = dedup_loop dict_key jobs {} []"

text \<open>
  The elements of a list whose key is neither in \<open>seen\<close> nor the key of an earlier
  element; used to describe the result of the loop.
\<close>

fun keep_first :: "('a \<Rightarrow> string) \<Rightarrow> string set \<Rightarrow> 'a list \<Rightarrow> 'a list" where
  "keep_first key seen [] = []"
| "keep_first key seen (x # xs) =
     (if key x \<in> seen then keep_first key seen xs
      else x # keep_first key (insert (key x) seen) xs)"

section \<open>Regular expressions of the feature extractor\<close>

text \<open>
  The patterns passed to \<open>re.search\<close> use literals, \<open>.\<close>, \<open>\b\<close>, \<open>\s+\<close>, \<open>\s*\<close>,
  \<open>\w\<close>, \<open>x?\<close>, non-capturing groups with alternatives and negative lookahead. They
  are written as terms of the following type; \<open>re.search\<close> is only used for its truth
  value, so a pattern is given the set of positions at which a match can end.
\<close>

datatype regex =
    Lit string
  | Dot
  | WordB
  | Space1
  | Space0
  | WordCh
  | Opt regex
  | Seq regex regex
  | Alt regex regex
  | NotAhead regex

definition cat :: "regex list \<Rightarrow> regex" where
  "cat rs = foldr Seq rs (Lit [])"

text \<open>\<open>\w\<close> and \<open>\s\<close> on the code points below 256.\<close>

definition is_word_char :: "char \<Rightarrow> bool" where
  "is_word_char c =
     (let n = (of_char c :: nat)
      in (48 \<le> n \<and> n \<le> 57) \<or> (65 \<le> n \<and> n \<le> 90) \<or> n = 95 \<or> (97 \<le> n \<and> n \<le> 122)
         \<or> n \<in> {170, 178, 179, 181, 185, 186, 188, 189, 190}
         \<or> (192 \<le> n \<and> n \<le> 214) \<or> (216 \<le> n \<and> n \<le> 246) \<or> 248 \<le> n)"

text \<open>
  A position in the text is the character before it (if any) and the rest of the text.
  \<open>\b\<close> holds where exactly one of the two neighbours is a word character.
\<close>

type_synonym pos = "char option \<times> string"

definition word_before :: "pos \<Rightarrow> bool" where
  "word_before p = (case fst p of None \<Rightarrow> False | Some c \<Rightarrow> is_word_char c)"

definition word_after :: "pos \<Rightarrow> bool" where
  "word_after p = (case snd p of [] \<Rightarrow> False | c # _ \<Rightarrow> is_word_char c)"

fun lit_end :: "string \<Rightarrow> pos \<Rightarrow> pos list" where
  "lit_end [] p = [p]"
| "lit_end (c # cs) (b, []) = []"
| "lit_end (c # cs) (b, x # xs) = (if x = c then lit_end cs (Some x, xs) else [])"

fun space_ends :: "pos \<Rightarrow> pos list" where
  "space_ends (b, []) = []"
| "space_ends (b, x # xs) =
     (if isspace x then (Some x, xs) # space_ends (Some x, xs) else [])"

fun match_ends :: "regex \<Rightarrow> pos \<Rightarrow> pos list" where
  "match_ends (Lit cs) p = lit_end cs p"
| "match_ends Dot p =
     (case snd p of [] \<Rightarrow> [] | x # xs \<Rightarrow> if x = CHR 0x0A then [] else [(Some x, xs)])"
| "match_ends WordB p = (if word_before p \<noteq> word_after p then [p] else [])"
| "match_ends Space1 p = space_ends p"
| "match_ends Space0 p = p # space_ends p"
| "match_ends WordCh p =
     (case snd p of [] \<Rightarrow> [] | x # xs \<Rightarrow> if is_word_char x then [(Some x, xs)] else [])"
| "match_ends (Opt r) p = match_ends r p @ [p]"
| "match_ends (Seq r1 r2) p = concat (map (match_ends r2) (match_ends r1 p))"
| "match_ends (Alt r1 r2) p = match_ends r1 p @ match_ends r2 p"
| "match_ends (NotAhead r) p = (if match_ends r p = [] then [p] else [])"

fun search_from :: "regex \<Rightarrow> pos \<Rightarrow> bool" where
  "search_from r (b, []) = (match_ends r (b, []) \<noteq> [])"
| "search_from r (b, x # xs) = (match_ends r (b, x # xs) \<noteq> [] \<or> search_from r (Some x, xs))"

definition re_search :: "regex \<Rightarrow> string \<Rightarrow> bool" where
  "re_search pattern text = search_from pattern (None, text)"

definition skill_patterns :: "(string \<times> regex list) list" where
  "skill_patterns =
    [(''python'',
       [cat [WordB, Lit ''python'', WordB],
        cat [WordB, Lit ''py'', WordB, NotAhead (cat [Space0, Lit ''test''])]]),
     (''javascript'',
       [cat [WordB, Lit ''javascript'', WordB],
        cat [WordB, Lit ''js'', WordB, NotAhead (cat [Space0, WordCh])],
        cat [WordB, Lit ''node'', Opt (Lit ''.''), Lit ''js'', WordB]]),
     (''java'',
       [cat [WordB, Lit ''java'', WordB, NotAhead (cat [Space0, Lit ''script''])],
        cat [WordB, Lit ''jdk'', WordB],
        cat [WordB, Lit ''jre'', WordB]]),
     (''typescript'',
       [cat [WordB, Lit ''typescript'', WordB],
        cat [WordB, Lit ''ts'', WordB, NotAhead (cat [Space0, WordCh])]]),
     (''c++'',
       [cat [WordB, Lit ''c++'', WordB],
        cat [WordB, Lit ''cpp'', WordB]]),
     (''c#'',
       [cat [WordB, Lit ''c#'', WordB],
        cat [WordB, Lit ''c sharp'', WordB],
        cat [WordB, Lit ''.net'', WordB]]),
     (''go'',
       [cat [WordB, Lit ''golang'', WordB],
        cat [WordB, Lit ''go'', WordB, (Alt (cat [Space1, Lit ''language'']) (cat [Space1, Lit ''programming'']))]]),
     (''rust'',
       [cat [WordB, Lit ''rust'', WordB, (Alt (cat [Space1, Lit ''language'']) (cat [Space1, Lit ''programming'']))]]),
     (''php'',
       [cat [WordB, Lit ''php'', WordB]]),
     (''ruby'',
       [cat [WordB, Lit ''ruby'', WordB, (Alt (cat [Space1, Lit ''on'', Space1, Lit ''rails'']) (cat [Space1, Lit ''programming'']))]]),
     (''swift'',
       [cat [WordB, Lit ''swift'', WordB, (Alt (cat [Space1, Lit ''programming'']) (cat [Space1, Lit ''language'']))]]),
     (''kotlin'',
       [cat [WordB, Lit ''kotlin'', WordB]]),
     (''scala'',
       [cat [WordB, Lit ''scala'', WordB]]),
     (''r'',
       [cat [WordB, Lit ''r'', Space1, Lit ''programming'', WordB],
        cat [WordB, Lit ''r'', Space1, Lit ''language'', WordB]]),
     (''html'',
       [cat [WordB, Lit ''html'', WordB],
        cat [WordB, Lit ''html5'', WordB]]),
     (''css'',
       [cat [WordB, Lit ''css'', WordB],
        cat [WordB, Lit ''css3'', WordB]]),
     (''react'',
       [cat [WordB, Lit ''react'', WordB],
        cat [WordB, Lit ''reactjs'', WordB],
        cat [WordB, Lit ''react.js'', WordB]]),
     (''angular'',
       [cat [WordB, Lit ''angular'', WordB],
        cat [WordB, Lit ''angularjs'', WordB]]),
     (''vue'',
       [cat [WordB, Lit ''vue'', WordB],
        cat [WordB, Lit ''vue.js'', WordB],
        cat [WordB, Lit ''vuejs'', WordB]]),
     (''svelte'',
       [cat [WordB, Lit ''svelte'', WordB]]),
     (''jquery'',
       [cat [WordB, Lit ''jquery'', WordB]]),
     (''bootstrap'',
       [cat [WordB, Lit ''bootstrap'', WordB]]),
     (''tailwind'',
       [cat [WordB, Lit ''tailwind'', WordB],
        cat [WordB, Lit ''tailwindcss'', WordB]]),
     (''django'',
       [cat [WordB, Lit ''django'', WordB]]),
     (''flask'',
       [cat [WordB, Lit ''flask'', WordB]]),
     (''fastapi'',
       [cat [WordB, Lit ''fastapi'', WordB]]),
     (''express'',
       [cat [WordB, Lit ''express'', WordB],
        cat [WordB, Lit ''express.js'', WordB]]),
     (''spring'',
       [cat [WordB, Lit ''spring'', WordB, (Alt (cat [Space1, Lit ''boot'']) (cat [Space1, Lit ''framework'']))]]),
     (''laravel'',
       [cat [WordB, Lit ''laravel'', WordB]]),
     (''rails'',
       [cat [WordB, Lit ''ruby'', Space1, Lit ''on'', Space1, Lit ''rails'', WordB],
        cat [WordB, Lit ''rails'', WordB]]),
     (''sql'',
       [cat [WordB, Lit ''sql'', WordB],
        cat [WordB, Lit ''structured'', Space1, Lit ''query'', Space1, Lit ''language'', WordB]]),
     (''mysql'',
       [cat [WordB, Lit ''mysql'', WordB]]),
     (''postgresql'',
       [cat [WordB, Lit ''postgresql'', WordB],
        cat [WordB, Lit ''postgres'', WordB]]),
     (''mongodb'',
       [cat [WordB, Lit ''mongodb'', WordB],
        cat [WordB, Lit ''mongo'', WordB]]),
     (''redis'',
       [cat [WordB, Lit ''redis'', WordB]]),
     (''elasticsearch'',
       [cat [WordB, Lit ''elasticsearch'', WordB]]),
     (''sqlite'',
       [cat [WordB, Lit ''sqlite'', WordB]]),
     (''oracle'',
       [cat [WordB, Lit ''oracle'', WordB, (cat [Space1, Lit ''database''])]]),
     (''cassandra'',
       [cat [WordB, Lit ''cassandra'', WordB]]),
     (''aws'',
       [cat [WordB, Lit ''aws'', WordB],
        cat [WordB, Lit ''amazon'', Space1, Lit ''web'', Space1, Lit ''services'', WordB]]),
     (''azure'',
       [cat [WordB, Lit ''azure'', WordB],
        cat [WordB, Lit ''microsoft'', Space1, Lit ''azure'', WordB]]),
     (''gcp'',
       [cat [WordB, Lit ''gcp'', WordB],
        cat [WordB, Lit ''google'', Space1, Lit ''cloud'', WordB]]),
     (''docker'',
       [cat [WordB, Lit ''docker'', WordB]]),
     (''kubernetes'',
       [cat [WordB, Lit ''kubernetes'', WordB],
        cat [WordB, Lit ''k8s'', WordB]]),
     (''jenkins'',
       [cat [WordB, Lit ''jenkins'', WordB]]),
     (''gitlab'',
       [cat [WordB, Lit ''gitlab'', WordB]]),
     (''github'',
       [cat [WordB, Lit ''github'', WordB]]),
     (''git'',
       [cat [WordB, Lit ''git'', WordB, NotAhead (cat [Space0, Lit ''hub''])]]),
     (''terraform'',
       [cat [WordB, Lit ''terraform'', WordB]]),
     (''ansible'',
       [cat [WordB, Lit ''ansible'', WordB]]),
     (''machine learning'',
       [cat [WordB, Lit ''machine'', Space1, Lit ''learning'', WordB],
        cat [WordB, Lit ''ml'', WordB, (Alt (cat [Space1, Lit ''engineer'']) (cat [Space1, Lit ''models'']))]]),
     (''deep learning'',
       [cat [WordB, Lit ''deep'', Space1, Lit ''learning'', WordB],
        cat [WordB, Lit ''dl'', WordB, (cat [Space1, Lit ''models''])]]),
     (''artificial intelligence'',
       [cat [WordB, Lit ''artificial'', Space1, Lit ''intelligence'', WordB],
        cat [WordB, Lit ''ai'', WordB, (Alt (cat [Space1, Lit ''engineer'']) (cat [Space1, Lit ''models'']))]]),
     (''data science'',
       [cat [WordB, Lit ''data'', Space1, Lit ''science'', WordB],
        cat [WordB, Lit ''data'', Space1, Lit ''scientist'', WordB]]),
     (''pandas'',
       [cat [WordB, Lit ''pandas'', WordB]]),
     (''numpy'',
       [cat [WordB, Lit ''numpy'', WordB]]),
     (''scikit-learn'',
       [cat [WordB, Lit ''scikit'', Dot, Lit ''learn'', WordB],
        cat [WordB, Lit ''sklearn'', WordB]]),
     (''tensorflow'',
       [cat [WordB, Lit ''tensorflow'', WordB]]),
     (''pytorch'',
       [cat [WordB, Lit ''pytorch'', WordB]]),
     (''keras'',
       [cat [WordB, Lit ''keras'', WordB]]),
     (''matplotlib'',
       [cat [WordB, Lit ''matplotlib'', WordB]]),
     (''seaborn'',
       [cat [WordB, Lit ''seaborn'', WordB]]),
     (''jupyter'',
       [cat [WordB, Lit ''jupyter'', WordB]]),
     (''pytest'',
       [cat [WordB, Lit ''pytest'', WordB]]),
     (''jest'',
       [cat [WordB, Lit ''jest'', WordB]]),
     (''selenium'',
       [cat [WordB, Lit ''selenium'', WordB]]),
     (''cypress'',
       [cat [WordB, Lit ''cypress'', WordB]]),
     (''unit testing'',
       [cat [WordB, Lit ''unit'', Space1, Lit ''test'', WordB],
        cat [WordB, Lit ''unittest'', WordB]]),
     (''graphql'',
       [cat [WordB, Lit ''graphql'', WordB]]),
     (''rest api'',
       [cat [WordB, Lit ''rest'', WordB],
        cat [WordB, Lit ''restful'', WordB],
        cat [WordB, Lit ''rest'', Space1, Lit ''api'', WordB]]),
     (''microservices'',
       [cat [WordB, Lit ''microservices'', WordB]]),
     (''linux'',
       [cat [WordB, Lit ''linux'', WordB],
        cat [WordB, Lit ''unix'', WordB]]),
     (''bash'',
       [cat [WordB, Lit ''bash'', WordB],
        cat [WordB, Lit ''shell'', Space1, Lit ''script'', WordB]]),
     (''agile'',
       [cat [WordB, Lit ''agile'', WordB],
        cat [WordB, Lit ''scrum'', WordB]]),
     (''jira'',
       [cat [WordB, Lit ''jira'', WordB]]),
     (''confluence'',
       [cat [WordB, Lit ''confluence'', WordB]])]"

definition benefit_patterns :: "(string \<times> regex list) list" where
  "benefit_patterns =
    [(''health insurance'',
       [cat [WordB, Lit ''health'', Space1, Lit ''insurance'', WordB],
        cat [WordB, Lit ''medical'', Space1, Lit ''coverage'', WordB]]),
     (''dental insurance'',
       [cat [WordB, Lit ''dental'', Space1, Lit ''insurance'', WordB],
        cat [WordB, Lit ''dental'', Space1, Lit ''coverage'', WordB]]),
     (''vision insurance'',
       [cat [WordB, Lit ''vision'', Space1, Lit ''insurance'', WordB],
        cat [WordB, Lit ''vision'', Space1, Lit ''coverage'', WordB]]),
     (''retirement plan'',
       [cat [WordB, Lit ''401k'', WordB],
        cat [WordB, Lit ''retirement'', Space1, Lit ''plan'', WordB],
        cat [WordB, Lit ''pension'', WordB]]),
     (''paid time off'',
       [cat [WordB, Lit ''pto'', WordB],
        cat [WordB, Lit ''paid'', Space1, Lit ''time'', Space1, Lit ''off'', WordB],
        cat [WordB, Lit ''vacation'', Space1, Lit ''days'', WordB]]),
     (''flexible hours'',
       [cat [WordB, Lit ''flexible'', Space1, Lit ''hours'', WordB],
        cat [WordB, Lit ''flexible'', Space1, Lit ''schedule'', WordB]]),
     (''remote work'',
       [cat [WordB, Lit ''remote'', Space1, Lit ''work'', WordB],
        cat [WordB, Lit ''work'', Space1, Lit ''from'', Space1, Lit ''home'', WordB],
        cat [WordB, Lit ''wfh'', WordB]]),
     (''stock options'',
       [cat [WordB, Lit ''stock'', Space1, Lit ''options'', WordB],
        cat [WordB, Lit ''equity'', WordB],
        cat [WordB, Lit ''rsus'', WordB]]),
     (''bonus'',
       [cat [WordB, Lit ''bonus'', WordB],
        cat [WordB, Lit ''performance'', Space1, Lit ''bonus'', WordB]]),
     (''gym membership'',
       [cat [WordB, Lit ''gym'', Space1, Lit ''membership'', WordB],
        cat [WordB, Lit ''fitness'', Space1, Lit ''center'', WordB]]),
     (''food allowance'',
       [cat [WordB, Lit ''free'', Space1, Lit ''food'', WordB],
        cat [WordB, Lit ''meals'', Space1, Lit ''provided'', WordB],
        cat [WordB, Lit ''food'', Space1, Lit ''allowance'', WordB]]),
     (''learning budget'',
       [cat [WordB, Lit ''learning'', Space1, Lit ''budget'', WordB],
        cat [WordB, Lit ''training'', Space1, Lit ''budget'', WordB],
        cat [WordB, Lit ''professional'', Space1, Lit ''development'', WordB]]),
     (''conference attendance'',
       [cat [WordB, Lit ''conference'', Space1, Lit ''attendance'', WordB],
        cat [WordB, Lit ''tech'', Space1, Lit ''conferences'', WordB]])]"

definition size_patterns :: "(string \<times> regex list) list" where
  "size_patterns =
    [(''startup'',
       [cat [WordB, Lit ''startup'', WordB],
        cat [WordB, Lit ''early'', Space1, Lit ''stage'', WordB],
        cat [WordB, Lit ''1-10'', Space1, Lit ''employees'', WordB]]),
     (''small'',
       [cat [WordB, Lit ''small'', Space1, Lit ''company'', WordB],
        cat [WordB, Lit ''11-50'', Space1, Lit ''employees'', WordB],
        cat [WordB, Lit ''10-50'', Space1, Lit ''employees'', WordB]]),
     (''medium'',
       [cat [WordB, Lit ''medium'', Space1, Lit ''company'', WordB],
        cat [WordB, Lit ''51-200'', Space1, Lit ''employees'', WordB],
        cat [WordB, Lit ''50-200'', Space1, Lit ''employees'', WordB]]),
     (''large'',
       [cat [WordB, Lit ''large'', Space1, Lit ''company'', WordB],
        cat [WordB, Lit ''201-1000'', Space1, Lit ''employees'', WordB],
        cat [WordB, Lit ''200-1000'', Space1, Lit ''employees'', WordB]]),
     (''enterprise'',
       [cat [WordB, Lit ''enterprise'', WordB],
        cat [WordB, Lit ''1000+'', Space1, Lit ''employees'', WordB],
        cat [WordB, Lit ''fortune'', Space1, Lit ''500'', WordB]])]"

text \<open>
  The two nested loops of the extractors: a catalogue entry is found when one of its
  patterns matches (\<open>break\<close> after the first). The skill extractor returns
  \<open>list(set(found_skills))\<close>, the found names without duplicates in an order that
  Python leaves open; here they keep the order of the catalogue. The company size is
  the first entry found. A text is \<open>None\<close> when it is missing.
\<close>

definition found_entries :: "(string \<times> regex list) list \<Rightarrow> string \<Rightarrow> string list" where
  "found_entries catalogue text =
     map fst (filter (\<lambda>entry. list_ex (\<lambda>pattern. re_search pattern text) (snd entry)) catalogue)"

definition extract_skills_from_job_text :: "string option \<Rightarrow> string list" where
  "extract_skills_from_job_text text =
     (case text of
        None \<Rightarrow> []
      | Some t \<Rightarrow> if t = [] then [] else remdups (found_entries skill_patterns (str_lower t)))"

definition extract_benefits_from_text :: "string option \<Rightarrow> string list" where
  "extract_benefits_from_text text =
     (case text of
        None \<Rightarrow> []
      | Some t \<Rightarrow> if t = [] then [] else found_entries benefit_patterns (str_lower t))"

definition extract_company_size_from_text :: "string option \<Rightarrow> string option" where
  "extract_company_size_from_text text =
     (case text of
        None \<Rightarrow> None
      | Some t \<Rightarrow>
          if t = [] then None
          else (case found_entries size_patterns (str_lower t) of
                  [] \<Rightarrow> None
                | found # _ \<Rightarrow> Some found))"

section \<open>Application dispatcher (backend/agents/autoapply_agent.py)\<close>

text \<open>\<open>str(n)\<close> for an integer: its decimal digits, with a sign for negative numbers.\<close>

fun str_nat :: "nat \<Rightarrow> string" where
  "str_nat n =
     (if n < 10 then [char_of (48 + n)]
      else str_nat (n div 10) @ [char_of (48 + n mod 10)])"

declare str_nat.simps [simp del]

definition str_int :: "int \<Rightarrow> string" where
  "str_int i = (if i < 0 then CHR ''-'' # str_nat (nat (- i)) else str_nat (nat i))"

text \<open>
  The state of an \<open>AutoApplyAgent\<close>: \<open>self.browser\<close> is \<open>None\<close>, the marker
  \<open>"http_session"\<close> or a browser object; the daily counter and its ceiling are integers.
\<close>

datatype browser = NoBrowser | HttpSession | PlaywrightBrowser

record autoapply_agent =
  browser :: browser
  applications_today :: int
  max_applications_per_day :: int

text \<open>
  An application result is a dictionary with the keys \<open>job_id\<close> and \<open>success\<close> and some of
  \<open>status\<close>, \<open>reason\<close>, \<open>error\<close> and \<open>method\<close>.
\<close>

record application_result =
  job_id :: int
  success :: bool
  status :: "string option"
  reason :: "string option"
  error :: "string option"
  apply_method :: "string option"

datatype exn = ValueError string | Error string

text \<open>
  The collaborators of the dispatcher that lie outside the agent: the database
  (\<open>get_user_by_id\<close> behind \<open>_get_user_profile\<close>, which may raise; \<open>get_job_by_id\<close> behind
  \<open>_get_job_details\<close>, which turns every exception into \<open>None\<close>; \<open>log_system_activity\<close>,
  which returns or raises, keyed by its \<open>action\<close>) and the submission itself
  (\<open>_apply_to_job\<close>: it returns the result dictionary of the chosen handler, or raises
  when the cover letter generator does). \<open>Inl\<close> and \<open>Some\<close> of a message stand for a
  raised exception.
\<close>

record ('p, 'j) apply_env =
  get_user_profile :: "int \<Rightarrow> string + 'p option"
  get_job_details :: "int \<Rightarrow> 'j option"
  apply_to_job :: "'p \<Rightarrow> 'j \<Rightarrow> string + application_result"
  log_system_activity :: "string \<Rightarrow> string option"

text \<open>\<open>_check_existing_application\<close> and \<open>_get_applications_today\<close> are constant.\<close>

definition check_existing_application :: "int \<Rightarrow> int \<Rightarrow> bool" where
  "check_existing_application user_id jid = False"

definition get_applications_today :: int where
  "get_applications_today = 0"

text \<open>
  \<open>__init__\<close> with the value of \<open>MAX_APPLICATIONS_PER_DAY\<close> (default 10), and \<open>initialize\<close>,
  whose \<open>try\<close> block either completes (the counter is set from
  \<open>_get_applications_today\<close>) or fails (the browser is set to \<open>None\<close>).
\<close>

definition autoapply_init :: "int \<Rightarrow> autoapply_agent" where
  "autoapply_init max_per_day =
     \<lparr>browser = NoBrowser, applications_today = 0, max_applications_per_day = max_per_day\<rparr>"

definition initialize :: "bool \<Rightarrow> autoapply_agent \<Rightarrow> autoapply_agent" where
  "initialize completes agent =
     (if completes
      then agent\<lparr>browser := HttpSession, applications_today := get_applications_today\<rparr>
      else agent\<lparr>browser := NoBrowser\<rparr>)"

definition unavailable_result :: "int \<Rightarrow> application_result" where
  "unavailable_result jid =
     \<lparr>job_id = jid, success = False, status = Some ''failed'',
      reason = Some ''Auto-apply not available'', error = None, apply_method = None\<rparr>"

definition exception_result :: "int \<Rightarrow> string \<Rightarrow> application_result" where
  "exception_result jid e =
     \<lparr>job_id = jid, success = False, status = None, reason = None, error = Some e,
      apply_method = Some ''unknown''\<rparr>"

text \<open>
  The loop \<open>for job_id in job_ids\<close> with its \<open>try\<close>/\<open>except\<close>: \<open>break\<close> when the limit is
  reached, \<open>continue\<close> when the job is not found or already applied to, otherwise one
  result is appended: the result of \<open>_apply_to_job\<close> (the counter is incremented when it
  is successful) or, when an exception was raised, a failed result.
\<close>

fun apply_loop ::
  "('p, 'j) apply_env \<Rightarrow> 'p \<Rightarrow> int \<Rightarrow> int list \<Rightarrow> application_result list \<times> autoapply_agent
     \<Rightarrow> application_result list \<times> autoapply_agent" where
  "apply_loop env user_profile user_id [] (results, agent) = (results, agent)"
| "apply_loop env user_profile user_id (jid # rest) (results, agent) =
     (if applications_today agent \<ge> max_applications_per_day agent then (results, agent)
      else
        (case get_job_details env jid of
           None \<Rightarrow> apply_loop env user_profile user_id rest (results, agent)
         | Some job \<Rightarrow>
             if check_existing_application user_id jid
             then apply_loop env user_profile user_id rest (results, agent)
             else
               (case apply_to_job env user_profile job of
                  Inl e \<Rightarrow>
                    apply_loop env user_profile user_id rest
                      (results @ [exception_result jid e], agent)
                | Inr application_result \<Rightarrow>
                    apply_loop env user_profile user_id rest
                      (results @ [application_result],
                       if success application_result
                       then agent\<lparr>applications_today := applications_today agent + 1\<rparr>
                       else agent))))"

definition auto_apply_to_jobs ::
  "('p, 'j) apply_env \<Rightarrow> autoapply_agent \<Rightarrow> int \<Rightarrow> int list
     \<Rightarrow> (exn + application_result list) \<times> autoapply_agent" where
  "auto_apply_to_jobs env agent user_id job_ids =
     (if browser agent = NoBrowser then (Inr (map unavailable_result job_ids), agent)
      else if applications_today agent \<ge> max_applications_per_day agent then (Inr [], agent)
      else
        (case get_user_profile env user_id of
           Inl e \<Rightarrow> (Inl (Error e), agent)
         | Inr None \<Rightarrow>
             (Inl (ValueError (''User profile not found for user_id: '' @ str_int user_id)),
              agent)
         | Inr (Some user_profile) \<Rightarrow>
             (case log_system_activity env ''auto_apply_start'' of
                Some e \<Rightarrow> (Inl (Error e), agent)
              | None \<Rightarrow>
                  (let (results, agent') =
                         apply_loop env user_profile user_id job_ids ([], agent)
                   in case log_system_activity env ''auto_apply_complete'' of
                        Some e \<Rightarrow> (Inl (Error e), agent')
                      | None \<Rightarrow> (Inr results, agent')))))"

text \<open>
  What one task contributes when the limit does not intervene: nothing when the job is
  not found or already applied to, otherwise one result.
\<close>

definition task_result ::
  "('p, 'j) apply_env \<Rightarrow> 'p \<Rightarrow> int \<Rightarrow> int \<Rightarrow> application_result option" where
  "task_result env user_profile user_id jid =
     (case get_job_details env jid of
        None \<Rightarrow> None
      | Some job \<Rightarrow>
          if check_existing_application user_id jid then None
          else Some (case apply_to_job env user_profile job of
                       Inl e \<Rightarrow> exception_result jid e
                     | Inr application_result \<Rightarrow> application_result))"

text \<open>
  The number of tasks the loop processes before it stops: it stops when the counter has
  reached the limit, and the counter grows with the successful results only.
\<close>

fun succeeded :: "application_result option \<Rightarrow> bool" where
  "succeeded None = False"
| "succeeded (Some r) = success r"

fun processed_tasks ::
  "('p, 'j) apply_env \<Rightarrow> 'p \<Rightarrow> int \<Rightarrow> int list \<Rightarrow> int \<Rightarrow> int \<Rightarrow> nat" where
  "processed_tasks env user_profile user_id [] today limit = 0"
| "processed_tasks env user_profile user_id (jid # rest) today limit =
     (if today \<ge> limit then 0
      else Suc (processed_tasks env user_profile user_id rest
                  (if succeeded (task_result env user_profile user_id jid)
                   then today + 1 else today)
                  limit))"

text \<open>
  Concrete collaborators for the scenarios: every user and every job exists (a job is
  its id), logging succeeds, and every submission is accepted; in \<open>example_env\<close> the
  submission for job 2 raises instead.
\<close>

definition submitted :: "int \<Rightarrow> application_result" where
  "submitted jid =
     \<lparr>job_id = jid, success = True, status = None, reason = None, error = None,
      apply_method = Some ''http_form''\<rparr>"

definition accepting_env :: "(unit, int) apply_env" where
  "accepting_env =
     \<lparr>get_user_profile = (\<lambda>user_id. Inr (Some ())),
      get_job_details = (\<lambda>jid. Some jid),
      apply_to_job = (\<lambda>user_profile job. Inr (submitted job)),
      log_system_activity = (\<lambda>action. None)\<rparr>"

definition example_env :: "(unit, int) apply_env" where
  "example_env =
     accepting_env\<lparr>apply_to_job :=
       (\<lambda>user_profile job. if job = 2 then Inl ''submission error'' else Inr (submitted job))\<rparr>"

definition ready_agent :: "int \<Rightarrow> int \<Rightarrow> autoapply_agent" where
  "ready_agent today max_per_day =
     \<lparr>browser = HttpSession, applications_today = today,
      max_applications_per_day = max_per_day\<rparr>"

text \<open>
  Collaborators as an agent with an HTTP session meets them: every submission ends in the
  answer of \<open>_apply_http_generic\<close>, which asks for a manual application; in
  \<open>raising_env\<close> the submission for job 2 raises instead, and in \<open>missing_env\<close> job 2 is
  not in the database.
\<close>

definition manual_required :: "int \<Rightarrow> application_result" where
  "manual_required jid =
     \<lparr>job_id = jid, success = False, status = None, reason = None,
      error = Some ''Generic form applications require manual submission - please apply manually'',
      apply_method = Some ''http_generic''\<rparr>"

definition manual_env :: "(unit, int) apply_env" where
  "manual_env =
     \<lparr>get_user_profile = (\<lambda>user_id. Inr (Some ())),
      get_job_details = (\<lambda>jid. Some jid),
      apply_to_job = (\<lambda>user_profile job. Inr (manual_required job)),
      log_system_activity = (\<lambda>action. None)\<rparr>"

definition raising_env :: "(unit, int) apply_env" where
  "raising_env =
     manual_env\<lparr>apply_to_job :=
       (\<lambda>user_profile job.
          if job = 2 then Inl ''argument of type NoneType is not iterable''
          else Inr (manual_required job))\<rparr>"

definition missing_env :: "(unit, int) apply_env" where
  "missing_env =
     manual_env\<lparr>get_job_details := (\<lambda>jid. if jid = 2 then None else Some jid)\<rparr>"

section \<open>Workflow orchestrator (backend/agents/supervisor_agent.py)\<close>

text \<open>
  Dictionaries with string keys, as they arrive in requests and leave in responses: the
  list of their items in insertion order. The configuration, which is updated in place,
  is a map.
\<close>

datatype pyval = PNone | PBool bool | PInt int | PNum rat | PStr string

fun pyval_truthy :: "pyval \<Rightarrow> bool" where
  "pyval_truthy PNone = False"
| "pyval_truthy (PBool b) = b"
| "pyval_truthy (PInt i) = (i \<noteq> 0)"
| "pyval_truthy (PNum q) = (q \<noteq> 0)"
| "pyval_truthy (PStr s) = (s \<noteq> [])"

type_synonym pydict = "(string \<times> pyval) list"

definition pydict_get :: "pydict \<Rightarrow> string \<Rightarrow> pyval \<Rightarrow> pyval" where
  "pydict_get d k dflt = (case map_of d k of None \<Rightarrow> dflt | Some v \<Rightarrow> v)"

definition config_get :: "(string \<rightharpoonup> pyval) \<Rightarrow> string \<Rightarrow> pyval \<Rightarrow> pyval" where
  "config_get d k dflt = (case d k of None \<Rightarrow> dflt | Some v \<Rightarrow> v)"

text \<open>The workflow state and configuration of a \<open>SupervisorAgent\<close>, as set by \<open>__init__\<close>.\<close>

record supervisor_agent =
  auto_mode_enabled :: bool
  last_scraping_time :: "int option"
  workflow_running :: bool
  config :: "string \<rightharpoonup> pyval"

definition supervisor_init :: supervisor_agent where
  "supervisor_init =
     \<lparr>auto_mode_enabled = False, last_scraping_time = None, workflow_running = False,
      config = [''scraping_interval_hours'' \<mapsto> PInt 24,
                ''scoring_threshold'' \<mapsto> PNum (7 / 10),
                ''max_auto_applications'' \<mapsto> PInt 5,
                ''auto_apply_enabled'' \<mapsto> PBool False,
                ''follow_up_interval_days'' \<mapsto> PInt 7]\<rparr>"

text \<open>
  The collaborators of a workflow run. The phases \<open>_execute_scraping_phase\<close>,
  \<open>_execute_scoring_phase\<close> and \<open>_execute_tracking_phase\<close> call the other agents inside a
  \<open>try\<close> that turns every exception into a result dictionary, so each of them is a
  function that returns a dictionary; the scraping phase also yields the new
  \<open>last_scraping_time\<close> when it got that far. \<open>database.log_system_activity\<close> returns or
  raises (\<open>Some\<close> of the message), keyed by its \<open>action\<close>.
\<close>

record workflow_env =
  scraping_phase :: "pydict \<Rightarrow> pydict \<times> int option"
  scoring_phase :: "(string \<rightharpoonup> pyval) \<Rightarrow> pydict"
  tracking_phase :: pydict
  log_activity :: "string \<Rightarrow> string option"

text \<open>
  \<open>_execute_autoapply_phase\<close> takes its job ids from an empty placeholder list, so it
  returns its first dictionary.
\<close>

definition execute_autoapply_phase :: pydict where
  "execute_autoapply_phase =
     [(''success'', PBool True),
      (''applications_sent'', PInt 0),
      (''message'', PStr ''No high-scoring jobs found for auto-apply'')]"

definition generate_workflow_summary ::
  "pydict \<Rightarrow> pydict \<Rightarrow> pydict option \<Rightarrow> pydict \<Rightarrow> pydict" where
  "generate_workflow_summary scraping_result scoring_result autoapply_result tracking_result =
     [(''total_jobs_found'', pydict_get scraping_result ''jobs_found'' (PInt 0)),
      (''jobs_scored'', pydict_get scoring_result ''jobs_scored'' (PInt 0)),
      (''high_scoring_jobs'', pydict_get scoring_result ''high_scoring_jobs'' (PInt 0)),
      (''applications_sent'',
         (case autoapply_result of
            None \<Rightarrow> PInt 0
          | Some r \<Rightarrow> if r = [] then PInt 0
                      else pydict_get r ''applications_sent'' (PInt 0))),
      (''applications_tracked'', pydict_get tracking_result ''total_applications'' (PInt 0)),
      (''workflow_duration'', PStr ''calculated_duration''),
      (''success'',
         PBool (list_all (\<lambda>r. pyval_truthy (pydict_get r ''success'' (PBool False)))
                  [scraping_result, scoring_result, tracking_result]))]"

record workflow_result =
  scraping :: pydict
  scoring :: pydict
  autoapply :: "pydict option"
  tracking :: pydict
  summary :: pydict

text \<open>
  The dictionaries returned by \<open>trigger_job_search\<close>: the busy answer
  (\<open>status = 'busy'\<close>), the failed answer with the message of the exception, and the
  result of a completed workflow.
\<close>

datatype trigger_result = Busy | WorkflowFailed string | WorkflowCompleted workflow_result

text \<open>
  The \<open>except\<close> clause of the workflow: it logs the error, which may raise again, and
  otherwise returns the failed answer.
\<close>

definition workflow_error ::
  "workflow_env \<Rightarrow> supervisor_agent \<Rightarrow> string \<Rightarrow> (string + trigger_result) \<times> supervisor_agent"
  where
  "workflow_error env agent e =
     (case log_activity env ''workflow_error'' of
        Some e' \<Rightarrow> (Inl e', agent)
      | None \<Rightarrow> (Inr (WorkflowFailed e), agent))"

text \<open>The \<open>try\<close> block with its \<open>except\<close> clause.\<close>

definition workflow_body ::
  "workflow_env \<Rightarrow> supervisor_agent \<Rightarrow> pydict \<Rightarrow> (string + trigger_result) \<times> supervisor_agent"
  where
  "workflow_body env agent search_params =
     (case log_activity env ''workflow_start'' of
        Some e \<Rightarrow> workflow_error env agent e
      | None \<Rightarrow>
          (let (scraping_result, scraped_at) = scraping_phase env search_params;
               agent1 = (case scraped_at of
                           None \<Rightarrow> agent
                         | Some t \<Rightarrow> agent\<lparr>last_scraping_time := Some t\<rparr>);
               scoring_result = scoring_phase env (config agent1);
               autoapply_result =
                 (if pyval_truthy (config_get (config agent1) ''auto_apply_enabled'' (PBool False))
                  then Some execute_autoapply_phase else None);
               tracking_result = tracking_phase env;
               result =
                 \<lparr>scraping = scraping_result, scoring = scoring_result,
                  autoapply = autoapply_result, tracking = tracking_result,
                  summary = generate_workflow_summary scraping_result scoring_result
                              autoapply_result tracking_result\<rparr>
           in case log_activity env ''workflow_complete'' of
                Some e \<Rightarrow> workflow_error env agent1 e
              | None \<Rightarrow> (Inr (WorkflowCompleted result), agent1)))"

text \<open>
  The entry of \<open>trigger_job_search\<close>, the test of \<open>workflow_running\<close> followed by the
  assignment of \<open>True\<close> (\<open>None\<close>: the busy answer is returned), and its \<open>finally\<close> clause.
\<close>

definition trigger_enter :: "supervisor_agent \<Rightarrow> supervisor_agent option" where
  "trigger_enter agent =
     (if workflow_running agent then None else Some (agent\<lparr>workflow_running := True\<rparr>))"

definition trigger_exit :: "supervisor_agent \<Rightarrow> supervisor_agent" where
  "trigger_exit agent = agent\<lparr>workflow_running := False\<rparr>"

definition trigger_job_search ::
  "workflow_env \<Rightarrow> supervisor_agent \<Rightarrow> pydict \<Rightarrow> (string + trigger_result) \<times> supervisor_agent"
  where
  "trigger_job_search env agent search_params =
     (case trigger_enter agent of
        None \<Rightarrow> (Inr Busy, agent)
      | Some agent1 \<Rightarrow>
          (let (outcome, agent2) = workflow_body env agent1 search_params
           in (outcome, trigger_exit agent2)))"

text \<open>
  Calls of \<open>trigger_job_search\<close> are coroutines of one event loop, so control passes from
  one to another at an \<open>await\<close> only. No \<open>await\<close> separates the test of
  \<open>workflow_running\<close> from the assignment that follows it: the entry is one step
  (\<open>Trigger\<close>). The \<open>finally\<close> clause, taken by a run that has entered, is another
  (\<open>Finish\<close>); in between a run awaits its phases, which do not write the flag. A system
  state pairs the agent with the number of runs that have entered and not yet finished.
\<close>

datatype event = Trigger | Finish

fun concurrent_step :: "event \<Rightarrow> supervisor_agent \<times> nat \<Rightarrow> supervisor_agent \<times> nat" where
  "concurrent_step Trigger (agent, running) =
     (case trigger_enter agent of
        None \<Rightarrow> (agent, running)
      | Some agent' \<Rightarrow> (agent', running + 1))"
| "concurrent_step Finish (agent, running) =
     (if running = 0 then (agent, running) else (trigger_exit agent, running - 1))"

fun concurrent_run :: "event list \<Rightarrow> supervisor_agent \<times> nat \<Rightarrow> supervisor_agent \<times> nat" where
  "concurrent_run [] s = s"
| "concurrent_run (e # es) s = concurrent_run es (concurrent_step e s)"

text \<open>\<open>update_configuration\<close>, with the set of keys it accepts.\<close>

definition valid_keys :: "string set" where
  "valid_keys =
     {''scraping_interval_hours'', ''scoring_threshold'', ''max_auto_applications'',
      ''auto_apply_enabled'', ''follow_up_interval_days''}"

datatype config_outcome =
  ConfigRejected "string set" | ConfigUpdated "string \<rightharpoonup> pyval" | ConfigError string

definition update_configuration ::
  "workflow_env \<Rightarrow> supervisor_agent \<Rightarrow> (string \<rightharpoonup> pyval)
     \<Rightarrow> config_outcome \<times> supervisor_agent" where
  "update_configuration env agent config_updates =
     (let invalid_keys = dom config_updates - valid_keys
      in if invalid_keys \<noteq> {} then (ConfigRejected invalid_keys, agent)
         else
           (let agent' = agent\<lparr>config := config agent ++ config_updates\<rparr>
            in case log_activity env ''config_update'' of
                 Some e \<Rightarrow> (ConfigError e, agent')
               | None \<Rightarrow> (ConfigUpdated (config agent'), agent')))"

text \<open>Collaborators for the concrete instances: nothing is found and logging succeeds.\<close>

definition quiet_env :: workflow_env where
  "quiet_env =
     \<lparr>scraping_phase =
        (\<lambda>search_params. ([(''success'', PBool True), (''jobs_found'', PInt 0)], Some 0)),
      scoring_phase = (\<lambda>config. [(''success'', PBool True), (''jobs_scored'', PInt 0)]),
      tracking_phase = [(''success'', PBool True)],
      log_activity = (\<lambda>action. None)\<rparr>"

text \<open>
  At most one run has entered and not finished, and \<open>workflow_running\<close> is set exactly
  when there is one.
\<close>

definition exclusive :: "supervisor_agent \<times> nat \<Rightarrow> bool" where
  "exclusive s = (snd s \<le> 1 \<and> (workflow_running (fst s) = (snd s = 1)))"

section \<open>Result cache (backend/agents/simple_supervisor_agent.py)\<close>

text \<open>
  The search parameters are a dictionary of which the keys \<open>keywords\<close>, \<open>location\<close> and
  \<open>max_results\<close> are read; a field is \<open>None\<close> when the key is absent. Points in time
  (\<open>datetime\<close>) and durations (\<open>timedelta\<close>) are counted in microseconds.
\<close>

record search_params =
  search_keywords :: "string option"
  search_location :: "string option"
  max_results :: "int option"

text \<open>
  The dictionary that \<open>trigger_job_search\<close> builds for a search; the cache stores such
  dictionaries.
\<close>

record search_response =
  response_params :: search_params
  result_jobs :: "job_listing list"
  total_found :: nat
  saved_to_db :: nat
  search_duration :: int
  timestamp :: int
  cache_key :: string

record simple_supervisor =
  is_auto_mode :: bool
  last_search_time :: "int option"
  search_results_cache :: "string \<rightharpoonup> search_response"
  max_cache_age :: int

definition timedelta_hours :: "int \<Rightarrow> int" where
  "timedelta_hours h = h * 3600 * 1000000"

definition simple_supervisor_init :: simple_supervisor where
  "simple_supervisor_init =
     \<lparr>is_auto_mode = False, last_search_time = None, search_results_cache = Map.empty,
      max_cache_age = timedelta_hours 1\<rparr>"

text \<open>
  The collaborators of a search: the job sites, and \<open>database.save_jobs\<close>, which returns
  the saved jobs (only their number is used) or raises. \<open>scrape_jobs\<close> visits the
  enabled sites in a loop that catches the exceptions of each site, so what reaches it is
  the list \<open>all_jobs\<close> of the listings of the sites that answered. The readings of
  \<open>datetime.now()\<close> are given in the order of the calls: for the validity test, the
  start and the end of the search, the timestamp of the result, and the last search time.
\<close>

record search_env =
  site_jobs :: "search_params \<Rightarrow> job_listing list"
  save_jobs :: "job_listing list \<Rightarrow> string + nat"

record clock =
  now_valid :: int
  now_start :: int
  now_end :: int
  now_stamp :: int
  now_last :: int

definition get_or :: "'a option \<Rightarrow> 'a \<Rightarrow> 'a" where
  "get_or v dflt = (case v of None \<Rightarrow> dflt | Some x \<Rightarrow> x)"

text \<open>The slice \<open>xs[:n]\<close>; a negative \<open>n\<close> counts from the end.\<close>

definition slice_to :: "int \<Rightarrow> 'a list \<Rightarrow> 'a list" where
  "slice_to n xs = (if n < 0 then take (nat (int (length xs) + n)) xs else take (nat n) xs)"

text \<open>\<open>SimpleScraperAgent.scrape_jobs\<close>: the listings of the sites, deduplicated and cut.\<close>

definition scrape_jobs :: "search_env \<Rightarrow> search_params \<Rightarrow> job_listing list" where
  "scrape_jobs env params =
     slice_to (get_or (max_results params) 50)
       (simple_remove_duplicates (site_jobs env params))"

definition create_cache_key :: "search_params \<Rightarrow> string" where
  "create_cache_key params =
     str_strip (str_lower (get_or (search_keywords params) []))
       @ ''|'' @ str_strip (str_lower (get_or (search_location params) []))
       @ ''|'' @ str_int (get_or (max_results params) 50)"

definition is_cache_valid :: "simple_supervisor \<Rightarrow> int \<Rightarrow> string \<Rightarrow> bool" where
  "is_cache_valid agent now key =
     (case search_results_cache agent key of
        None \<Rightarrow> False
      | Some cached_result \<Rightarrow> now - timestamp cached_result < max_cache_age agent)"

text \<open>The dictionary built for a listing in the response: \<open>skills\<close> is \<open>job.skills or []\<close>.\<close>

definition response_job :: "job_listing \<Rightarrow> job_listing" where
  "response_job job =
     job\<lparr>skills := Some (case skills job of None \<Rightarrow> [] | Some s \<Rightarrow> s)\<rparr>"

text \<open>
  \<open>SimpleSupervisorAgent.trigger_job_search\<close>. With parameters of the types above no
  statement of its \<open>try\<close> block raises (the scraper catches the errors of its sites, and
  a failure of \<open>save_jobs\<close> is caught on the spot), so its \<open>except\<close> clause is not
  reached and every call returns a search dictionary.
\<close>

definition simple_trigger_job_search ::
  "search_env \<Rightarrow> clock \<Rightarrow> simple_supervisor \<Rightarrow> search_params
     \<Rightarrow> search_response \<times> simple_supervisor" where
  "simple_trigger_job_search env clk agent params =
     (let key = create_cache_key params
      in if is_cache_valid agent (now_valid clk) key
         then (the (search_results_cache agent key), agent)
         else
           (let found = scrape_jobs env params;
                saved = (if found \<noteq> []
                         then (case save_jobs env found of Inl e \<Rightarrow> 0 | Inr n \<Rightarrow> n)
                         else 0);
                response_jobs = map response_job found;
                result =
                  \<lparr>response_params = params, result_jobs = response_jobs,
                   total_found = length response_jobs, saved_to_db = saved,
                   search_duration = now_end clk - now_start clk,
                   timestamp = now_stamp clk, cache_key = key\<rparr>
            in (result,
                agent\<lparr>search_results_cache := (search_results_cache agent)(key \<mapsto> result),
                      last_search_time := Some (now_last clk)\<rparr>)))"

text \<open>
  Concrete instances: a query, sites that offer one listing twice, a clock whose readings
  all are the given time, and an agent whose cache holds one entry for the query, created
  at time 0.
\<close>

definition python_query :: search_params where
  "python_query =
     \<lparr>search_keywords = Some '' Python '', search_location = Some ''Remote'', max_results = None\<rparr>"

definition finding_env :: search_env where
  "finding_env =
     \<lparr>site_jobs = (\<lambda>params. [JobListing ''Backend Engineer'' ''Acme'' [] [] [],
                                JobListing ''backend engineer'' '' Acme '' [] [] []]),
      save_jobs = (\<lambda>found. Inr (length found))\<rparr>"

definition clock_at :: "int \<Rightarrow> clock" where
  "clock_at t = \<lparr>now_valid = t, now_start = t, now_end = t, now_stamp = t, now_last = t\<rparr>"

definition old_response :: search_response where
  "old_response =
     \<lparr>response_params = python_query, result_jobs = [], total_found = 0, saved_to_db = 0,
      search_duration = 0, timestamp = 0, cache_key = ''python|remote|50''\<rparr>"

definition cached_agent :: simple_supervisor where
  "cached_agent =
     simple_supervisor_init\<lparr>search_results_cache := [''python|remote|50'' \<mapsto> old_response]\<rparr>"

section \<open>Properties of floating-point rounding\<close>

text \<open>
  Rounding to the nearest integer is monotone, exact on integers and off by at most one
  half; \<open>binade\<close> is the binary exponent; hence \<open>fl\<close> is monotone, has a relative error
  of at most \<open>2^(-53)\<close>, and leaves \<open>m * 2^k\<close> unchanged when \<open>m < 2^53\<close>.
\<close>

lemma rhe_of_int: "round_half_even (of_int n) = n"
  by (simp add: round_half_even_def)

lemma rhe_floor: "\<lfloor>t\<rfloor> \<le> round_half_even t \<and> round_half_even t \<le> \<lfloor>t\<rfloor> + 1"
  by (simp add: round_half_even_def Let_def)

lemma rhe_error:
  "of_int (round_half_even t) - t \<le> 1 / 2 \<and> t - of_int (round_half_even t) \<le> 1 / 2"
proof -
  define n where "n = \<lfloor>t\<rfloor>"
  have a: "of_int n \<le> t" "t < of_int n + 1" unfolding n_def by linarith+
  have "round_half_even t =
      (if t - of_int n < 1 / 2 then n else if 1 / 2 < t - of_int n then n + 1
       else if even n then n else n + 1)"
    by (simp add: round_half_even_def Let_def n_def)
  with a show ?thesis by auto
qed

lemma rhe_mono:
  assumes "s \<le> t"
  shows "round_half_even s \<le> round_half_even t"
proof (cases "\<lfloor>s\<rfloor> = \<lfloor>t\<rfloor>")
  case True
  with assms show ?thesis
    by (auto simp: round_half_even_def Let_def)
next
  case False
  with assms have "\<lfloor>s\<rfloor> < \<lfloor>t\<rfloor>"
    using floor_mono [OF assms] by linarith
  then have "\<lfloor>s\<rfloor> + 1 \<le> \<lfloor>t\<rfloor>" by simp
  with rhe_floor [of s] rhe_floor [of t] show ?thesis by linarith
qed

lemma binade_bounds:
  assumes "0 < x"
  shows "2 powi binade x \<le> x \<and> x < 2 powi (binade x + 1)"
proof (cases "1 \<le> x")
  case True
  let ?n = "\<lfloor>x\<rfloor>"
  have n: "0 < ?n" using True by simp
  have b1: "1 \<le> bitlen ?n" using n by (simp add: bitlen_alt_def)
  from bitlen_bounds [OF n]
  have lo: "2 ^ nat (bitlen ?n - 1) \<le> ?n" and hi: "?n < 2 ^ nat (bitlen ?n)" by simp_all
  have "(of_int (2 ^ nat (bitlen ?n - 1)) :: rat) \<le> of_int ?n"
    using lo by (simp only: of_int_le_iff)
  also have "\<dots> \<le> x" by simp
  finally have l: "2 powi (bitlen ?n - 1) \<le> x"
    using b1 by (simp add: power_int_def)
  have "?n + 1 \<le> 2 ^ nat (bitlen ?n)" using hi by simp
  then have "(of_int (?n + 1) :: rat) \<le> of_int (2 ^ nat (bitlen ?n))"
    by (simp only: of_int_le_iff)
  moreover have "x < of_int (?n + 1)" by linarith
  ultimately have "x < of_int (2 ^ nat (bitlen ?n))" by linarith
  then have h: "x < 2 powi (bitlen ?n)"
    using b1 by (simp add: power_int_def)
  from l h True show ?thesis by (simp add: binade_def)
next
  case False
  then have x1: "x < 1" by simp
  let ?y = "1 / x"
  let ?m = "\<lceil>?y\<rceil> - 1"
  have y1: "1 < ?y" using assms x1 by simp
  then have "1 < \<lceil>?y\<rceil>" by (simp add: less_ceiling_iff)
  then have m: "0 < ?m" by simp
  have b1: "1 \<le> bitlen ?m" using m by (simp add: bitlen_alt_def)
  from bitlen_bounds [OF m]
  have lo: "2 ^ nat (bitlen ?m - 1) \<le> ?m" and hi: "?m < 2 ^ nat (bitlen ?m)" by simp_all
  have my: "of_int ?m < ?y" by linarith
  have ym: "?y \<le> of_int (?m + 1)" by simp
  have "(of_int (2 ^ nat (bitlen ?m - 1)) :: rat) \<le> of_int ?m"
    using lo by (simp only: of_int_le_iff)
  with my have "of_int (2 ^ nat (bitlen ?m - 1)) < ?y" by linarith
  then have ylo: "2 ^ nat (bitlen ?m - 1) < ?y" by simp
  have "?m + 1 \<le> 2 ^ nat (bitlen ?m)" using hi by simp
  then have "(of_int (?m + 1) :: rat) \<le> of_int (2 ^ nat (bitlen ?m))"
    by (simp only: of_int_le_iff)
  with ym have "?y \<le> of_int (2 ^ nat (bitlen ?m))" by linarith
  then have yhi: "?y \<le> 2 ^ nat (bitlen ?m)" by simp
  have p1: "(0::rat) < 2 ^ nat (bitlen ?m)" by simp
  have p2: "(0::rat) < 2 ^ nat (bitlen ?m - 1)" by simp
  have l: "1 / 2 ^ nat (bitlen ?m) \<le> x"
    using yhi assms p1 by (simp add: field_simps)
  have h: "x < 1 / 2 ^ nat (bitlen ?m - 1)"
    using ylo assms p2 by (simp add: field_simps)
  have e1: "(2::rat) powi (- bitlen ?m) = 1 / 2 ^ nat (bitlen ?m)"
    using b1 by (simp add: power_int_def field_simps)
  have e2: "(2::rat) powi (1 - bitlen ?m) = 1 / 2 ^ nat (bitlen ?m - 1)"
    using b1 by (simp add: power_int_def field_simps)
  from l h False show ?thesis by (simp add: binade_def e1 e2)
qed

lemma powi_less_cancel:
  assumes "(2::rat) powi a < 2 powi b"
  shows "a < b"
proof (rule ccontr)
  assume "\<not> a < b"
  then have "b \<le> a" by simp
  then have "(2::rat) powi b \<le> 2 powi a"
    by (intro power_int_increasing) simp_all
  with assms show False by simp
qed

lemma binade_unique:
  assumes "0 < x" and "2 powi e \<le> x" and "x < 2 powi (e + 1)"
  shows "binade x = e"
proof -
  from binade_bounds [OF assms(1)]
  have lo: "2 powi binade x \<le> x" and hi: "x < 2 powi (binade x + 1)" by simp_all
  from lo assms(3) have "(2::rat) powi binade x < 2 powi (e + 1)" by simp
  then have "binade x < e + 1" by (rule powi_less_cancel)
  moreover from assms(2) hi have "(2::rat) powi e < 2 powi (binade x + 1)" by simp
  then have "e < binade x + 1" by (rule powi_less_cancel)
  ultimately show ?thesis by simp
qed

lemma binade_mono:
  assumes "0 < x" and "x \<le> y"
  shows "binade x \<le> binade y"
proof -
  have y: "0 < y" using assms by simp
  from binade_bounds [OF assms(1)] have "2 powi binade x \<le> x" by simp
  moreover from binade_bounds [OF y] have "y < 2 powi (binade y + 1)" by simp
  ultimately have "(2::rat) powi binade x < 2 powi (binade y + 1)" using assms(2) by simp
  then have "binade x < binade y + 1" by (rule powi_less_cancel)
  then show ?thesis by simp
qed

lemma quantum_split: "(2::rat) powi e = 2 ^ 52 * 2 powi (e - 52)"
proof -
  have "e = 52 + (e - 52)" by simp
  then have "(2::rat) powi e = 2 powi (52 + (e - 52))"
    by (rule arg_cong [where f = "power_int 2"])
  also have "\<dots> = 2 powi 52 * 2 powi (e - 52)"
    by (rule power_int_add) simp
  finally show ?thesis by simp
qed

lemma quantum_split_up: "(2::rat) powi (e + 1) = 2 ^ 53 * 2 powi (e - 52)"
proof -
  have "e + 1 = 53 + (e - 52)" by simp
  then have "(2::rat) powi (e + 1) = 2 powi (53 + (e - 52))"
    by (rule arg_cong [where f = "power_int 2"])
  also have "\<dots> = 2 powi 53 * 2 powi (e - 52)"
    by (rule power_int_add) simp
  finally show ?thesis by simp
qed

lemma significand_range:
  assumes "0 < x"
  shows "2 ^ 52 \<le> x / 2 powi (binade x - 52) \<and> x / 2 powi (binade x - 52) < 2 ^ 53"
proof -
  let ?q = "(2::rat) powi (binade x - 52)"
  have q: "0 < ?q" by simp
  from binade_bounds [OF assms]
  have "2 ^ 52 * ?q \<le> x" and "x < 2 ^ 53 * ?q"
    using quantum_split [of "binade x"] quantum_split_up [of "binade x"] by simp_all
  then show ?thesis using q by (simp add: pos_le_divide_eq pos_divide_less_eq)
qed

lemma rounded_significand_range:
  assumes "0 < x"
  shows "2 ^ 52 \<le> round_half_even (x / 2 powi (binade x - 52))
       \<and> round_half_even (x / 2 powi (binade x - 52)) \<le> 2 ^ 53"
proof -
  let ?t = "x / 2 powi (binade x - 52)"
  from significand_range [OF assms] have lo: "of_int (2 ^ 52) \<le> ?t" and hi: "?t \<le> of_int (2 ^ 53)"
    by simp_all
  from rhe_mono [OF lo] rhe_mono [OF hi] show ?thesis by (simp only: rhe_of_int) 
qed

lemma fl_pos_range:
  assumes "0 < x"
  shows "2 powi binade x \<le> fl_pos x \<and> fl_pos x \<le> 2 powi (binade x + 1)"
proof -
  let ?q = "(2::rat) powi (binade x - 52)"
  let ?r = "round_half_even (x / ?q)"
  have q: "0 < ?q" by simp
  from rounded_significand_range [OF assms] have "2 ^ 52 \<le> ?r" and "?r \<le> 2 ^ 53" by simp_all
  then have "(of_int (2 ^ 52) :: rat) \<le> of_int ?r" and "(of_int ?r :: rat) \<le> of_int (2 ^ 53)"
    by (simp_all only: of_int_le_iff)
  then have "2 ^ 52 * ?q \<le> of_int ?r * ?q" and "of_int ?r * ?q \<le> 2 ^ 53 * ?q"
    using q by simp_all
  then show ?thesis
    unfolding quantum_split [of "binade x", symmetric] quantum_split_up [of "binade x", symmetric]
    by (simp add: fl_pos_def Let_def)
qed

lemma fl_pos_positive: "0 < x \<Longrightarrow> 0 < fl_pos x"
proof -
  assume x: "0 < x"
  have "(0::rat) < 2 powi binade x" by simp
  with fl_pos_range [OF x] show ?thesis by linarith
qed

lemma fl_pos_mono:
  assumes "0 < x" and "x \<le> y"
  shows "fl_pos x \<le> fl_pos y"
proof (cases "binade x = binade y")
  case True
  let ?q = "(2::rat) powi (binade y - 52)"
  have q: "0 < ?q" by simp
  have "x / ?q \<le> y / ?q" using assms(2) q by (simp add: divide_right_mono)
  then have "round_half_even (x / ?q) \<le> round_half_even (y / ?q)" by (rule rhe_mono)
  then have "(of_int (round_half_even (x / ?q)) :: rat) \<le> of_int (round_half_even (y / ?q))"
    by (simp only: of_int_le_iff)
  then have "of_int (round_half_even (x / ?q)) * ?q \<le> of_int (round_half_even (y / ?q)) * ?q"
    using q by simp
  then show ?thesis by (simp add: fl_pos_def Let_def True)
next
  case False
  have y: "0 < y" using assms by simp
  from False binade_mono [OF assms] have "binade x + 1 \<le> binade y" by simp
  then have "(2::rat) powi (binade x + 1) \<le> 2 powi binade y"
    by (intro power_int_increasing) simp_all
  with fl_pos_range [OF assms(1)] fl_pos_range [OF y] show ?thesis by linarith
qed

lemma fl_mono:
  assumes "x \<le> y"
  shows "fl x \<le> fl y"
proof -
  consider "0 < x" | "x = 0" "0 < y" | "x = 0" "y = 0" | "x < 0" "0 \<le> y" | "y < 0"
    using assms by linarith
  then show ?thesis
  proof cases
    case 1
    then have "0 < y" using assms by simp
    with 1 fl_pos_mono [OF 1 assms] show ?thesis by (simp add: fl_def)
  next
    case 2
    with fl_pos_positive [of y] show ?thesis by (simp add: fl_def)
  next
    case 3
    then show ?thesis by simp
  next
    case 4
    then have "0 < - x" by simp
    from fl_pos_positive [OF this] have a: "fl x < 0" using 4 by (simp add: fl_def)
    have "0 \<le> fl y"
    proof (cases "y = 0")
      case True
      then show ?thesis by (simp add: fl_def)
    next
      case False
      with 4 have "0 < y" by simp
      from fl_pos_positive [OF this] show ?thesis using \<open>0 < y\<close> by (simp add: fl_def)
    qed
    with a show ?thesis by simp
  next
    case 5
    then have y: "0 < - y" and "- y \<le> - x" using assms by simp_all
    from fl_pos_mono [OF this] have "fl_pos (- y) \<le> fl_pos (- x)" .
    moreover have "x < 0" using 5 assms by simp
    ultimately show ?thesis using 5 by (simp add: fl_def)
  qed
qed

lemma fl_pos_error:
  assumes "0 < x"
  shows "\<bar>fl_pos x - x\<bar> \<le> x / 2 ^ 53"
proof -
  let ?q = "(2::rat) powi (binade x - 52)"
  let ?t = "x / ?q"
  have q: "0 < ?q" by simp
  have x: "x = ?t * ?q" using q by simp
  have "fl_pos x - x = of_int (round_half_even ?t) * ?q - ?t * ?q"
    using q by (simp add: fl_pos_def Let_def)
  also have "\<dots> = (of_int (round_half_even ?t) - ?t) * ?q"
    by (simp only: left_diff_distrib)
  finally have "\<bar>fl_pos x - x\<bar> = \<bar>of_int (round_half_even ?t) - ?t\<bar> * ?q"
    using q by (simp add: abs_mult)
  moreover have "\<bar>of_int (round_half_even ?t) - ?t\<bar> \<le> 1 / 2"
    using rhe_error [of ?t] by linarith
  ultimately have e: "\<bar>fl_pos x - x\<bar> \<le> 1 / 2 * ?q"
    using q by (simp add: mult_right_mono)
  from binade_bounds [OF assms] have "2 ^ 52 * ?q \<le> x"
    using quantum_split [of "binade x"] by simp
  then have "1 / 2 * ?q \<le> x / 2 ^ 53" by (simp add: field_simps)
  with e show ?thesis by linarith
qed

lemma fl_error: "\<bar>fl x - x\<bar> \<le> \<bar>x\<bar> / 2 ^ 53"
proof -
  consider "x = 0" | "0 < x" | "x < 0" by linarith
  then show ?thesis
  proof cases
    case 1
    then show ?thesis by (simp add: fl_def)
  next
    case 2
    with fl_pos_error [OF 2] show ?thesis by (simp add: fl_def)
  next
    case 3
    then have "0 < - x" by simp
    from fl_pos_error [OF this] have "\<bar>fl_pos (- x) + x\<bar> \<le> - x / 2 ^ 53" by simp
    moreover have "- fl_pos (- x) - x = - (fl_pos (- x) + x)" by simp
    then have "\<bar>- fl_pos (- x) - x\<bar> = \<bar>fl_pos (- x) + x\<bar>"
      by (simp only: abs_minus_cancel)
    ultimately show ?thesis using 3 by (simp add: fl_def)
  qed
qed

lemma fl_pos_exact:
  assumes m: "0 < m" and m53: "m < 2 ^ 53" and x: "x = of_int m * 2 powi k"
  shows "fl_pos x = x"
proof -
  let ?q = "(2::rat) powi (binade x - 52)"
  have q: "0 < ?q" by simp
  have pos: "0 < x" using m x by simp
  have "(of_int m :: rat) < of_int (2 ^ 53)" using m53 by (simp only: of_int_less_iff)
  then have "x < 2 ^ 53 * 2 powi k" using x by simp
  also have "\<dots> = 2 powi (53 + k)"
    by (subst power_int_add) simp_all
  finally have "x < 2 powi (53 + k)" .
  with binade_bounds [OF pos] have "(2::rat) powi binade x < 2 powi (53 + k)" by simp
  then have "binade x < 53 + k" by (rule powi_less_cancel)
  then have d: "0 \<le> k - (binade x - 52)" by simp
  have "x / ?q = of_int m * (2 powi k / ?q)" using x by simp
  also have "2 powi k / ?q = (2::rat) powi (k - (binade x - 52))"
    by (subst power_int_diff) simp_all
  also have "\<dots> = 2 ^ nat (k - (binade x - 52))"
    using d by (simp add: power_int_def)
  finally have "x / ?q = of_int (m * 2 ^ nat (k - (binade x - 52)))" by simp
  then have "round_half_even (x / ?q) = m * 2 ^ nat (k - (binade x - 52))"
    by (simp only: rhe_of_int)
  then have "of_int (round_half_even (x / ?q)) = x / ?q"
    using \<open>x / ?q = of_int (m * 2 ^ nat (k - (binade x - 52)))\<close> by simp
  then show ?thesis using q by (simp add: fl_pos_def Let_def)
qed

lemma fl_exact:
  assumes "m < 2 ^ 53"
  shows "fl (of_nat m * 2 powi k) = of_nat m * 2 powi k"
proof (cases "m = 0")
  case True
  then show ?thesis by (simp add: fl_def)
next
  case False
  then have m: "0 < int m" by simp
  have "int m < int (2 ^ 53)" using assms by (simp only: of_nat_less_iff)
  then have m53: "int m < 2 ^ 53" by simp
  have x: "(of_nat m :: rat) * 2 powi k = of_int (int m) * 2 powi k" by simp
  have "0 < (of_nat m :: rat) * 2 powi k" using False by simp
  with fl_pos_exact [OF m m53 x] show ?thesis by (simp add: fl_def)
qed

section \<open>Properties of the skill matcher\<close>

lemma match_loop_filter:
  "match_loop usl rs (e, p, m) =
     (e @ filter (\<lambda>r. skill_class usl r = Exact) rs,
      p @ map (mk_partial usl) (filter (\<lambda>r. skill_class usl r = Partial) rs),
      m @ filter (\<lambda>r. skill_class usl r = Missing) rs)"
  by (induction rs arbitrary: e p m) (simp_all add: skill_class_def mk_partial_def Let_def)

lemma calc_exact:
  "exact_matches (calculate_skill_match us rs)
     = filter (\<lambda>r. skill_class (map str_lower us) r = Exact) rs"
  by (simp add: calculate_skill_match_def match_loop_filter Let_def)

lemma calc_partial:
  "partial_matches (calculate_skill_match us rs) =
     map (mk_partial (map str_lower us))
       (filter (\<lambda>r. skill_class (map str_lower us) r = Partial) rs)"
  by (simp add: calculate_skill_match_def match_loop_filter Let_def)

lemma calc_missing:
  "missing_skills (calculate_skill_match us rs)
     = filter (\<lambda>r. skill_class (map str_lower us) r = Missing) rs"
  by (simp add: calculate_skill_match_def match_loop_filter Let_def)

lemma calc_total:
  "total_required (calculate_skill_match us rs) = max (length rs) 1"
  by (cases rs) (simp_all add: calculate_skill_match_def match_loop_filter Let_def)

lemma calc_percentage:
  "match_percentage (calculate_skill_match us rs) =
     min 100 (fl (fl ((of_nat (length (exact_matches (calculate_skill_match us rs))) * 1
         + of_nat (length (partial_matches (calculate_skill_match us rs))) * (1 / 2))
        / of_nat (max (length rs) 1)) * 100))"
  by (cases rs) (simp_all add: calculate_skill_match_def match_loop_filter Let_def)

lemma required_skill_mk_partial: "map required_skill (map (mk_partial usl) xs) = xs"
  by (induction xs) (simp_all add: mk_partial_def)

lemma class_partition_mset:
  "mset (filter (\<lambda>r. skill_class usl r = Exact) rs)
     + mset (filter (\<lambda>r. skill_class usl r = Partial) rs)
     + mset (filter (\<lambda>r. skill_class usl r = Missing) rs) = mset rs"
proof (induction rs)
  case Nil
  then show ?case by simp
next
  case (Cons r rs)
  then show ?case by (cases "skill_class usl r") simp_all
qed

lemma class_partition_length:
  "length (filter (\<lambda>r. skill_class usl r = Exact) rs)
     + length (filter (\<lambda>r. skill_class usl r = Partial) rs)
     + length (filter (\<lambda>r. skill_class usl r = Missing) rs) = length rs"
proof (induction rs)
  case Nil
  then show ?case by simp
next
  case (Cons r rs)
  then show ?case by (cases "skill_class usl r") simp_all
qed

lemma calc_length_sum:
  "length (exact_matches (calculate_skill_match us rs))
     + length (partial_matches (calculate_skill_match us rs))
     + length (missing_skills (calculate_skill_match us rs)) = length rs"
  by (simp add: calc_exact calc_partial calc_missing class_partition_length)

lemma score_bounds:
  "0 \<le> (of_nat (length (exact_matches (calculate_skill_match us rs))) * 1
         + of_nat (length (partial_matches (calculate_skill_match us rs))) * (1 / 2))
        / (of_nat (max (length rs) 1) :: rat)
   \<and> (of_nat (length (exact_matches (calculate_skill_match us rs))) * 1
         + of_nat (length (partial_matches (calculate_skill_match us rs))) * (1 / 2))
        / (of_nat (max (length rs) 1) :: rat) \<le> 1"
proof -
  let ?e = "length (exact_matches (calculate_skill_match us rs))"
  let ?p = "length (partial_matches (calculate_skill_match us rs))"
  let ?m = "length (missing_skills (calculate_skill_match us rs))"
  have sum: "?e + ?p + ?m = length rs"
    by (rule calc_length_sum)
  have "?e + ?p \<le> max (length rs) 1" using sum by linarith
  then have "(of_nat ?e + of_nat ?p :: rat) \<le> of_nat (max (length rs) 1)"
    by (metis of_nat_add of_nat_le_iff)
  moreover have "(of_nat ?p :: rat) * (1 / 2) \<le> of_nat ?p" by simp
  ultimately have num:
    "(of_nat ?e * 1 + of_nat ?p * (1 / 2) :: rat) \<le> of_nat (max (length rs) 1)"
    by linarith
  have pos: "(0::rat) < of_nat (max (length rs) 1)" by simp
  have nonneg: "(0::rat) \<le> of_nat ?e * 1 + of_nat ?p * (1 / 2)" by simp
  show ?thesis
  proof
    show "0 \<le> (of_nat ?e * 1 + of_nat ?p * (1 / 2)) / (of_nat (max (length rs) 1) :: rat)"
      using nonneg pos by (simp only: divide_nonneg_pos)
    show "(of_nat ?e * 1 + of_nat ?p * (1 / 2)) / (of_nat (max (length rs) 1) :: rat) \<le> 1"
      using num pos by (simp only: divide_le_eq_1_pos)
  qed
qed

lemma filter_update_length:
  assumes "i < length xs"
  shows "length (filter P (xs[i := y])) + (if P (xs ! i) then 1 else 0)
           = length (filter P xs) + (if P y then 1 else 0)"
proof -
  have a: "xs = take i xs @ xs ! i # drop (Suc i) xs"
    using assms by (simp add: id_take_nth_drop)
  have b: "xs[i := y] = take i xs @ y # drop (Suc i) xs"
    using assms by (simp add: upd_conv_take_nth_drop)
  have "length (filter P xs) = length (filter P (take i xs)) + (if P (xs ! i) then 1 else 0)
          + length (filter P (drop (Suc i) xs))"
    by (subst a) simp
  moreover have "length (filter P (xs[i := y]))
        = length (filter P (take i xs)) + (if P y then 1 else 0)
          + length (filter P (drop (Suc i) xs))"
    by (subst b) simp
  ultimately show ?thesis by simp
qed

lemma count_class:
  "length (filter (\<lambda>r. skill_class usl r = c) rs)
     = length (filter (\<lambda>k. k = c) (map (skill_class usl) rs))"
  by (induction rs) simp_all

lemma fl_zero: "fl 0 = 0"
  by (simp add: fl_def)

lemma fl_one: "fl 1 = 1"
  using fl_exact [of 1 0] by simp

lemma fl_hundred: "fl 100 = 100"
  using fl_exact [of 100 0] by simp

lemma percentage_bounds:
  assumes "0 \<le> s" and "s \<le> 1"
  shows "0 \<le> fl (fl s * 100) \<and> fl (fl s * 100) \<le> 100"
proof -
  have a0: "0 \<le> fl s" using fl_mono [OF assms(1)] by (simp add: fl_zero)
  have a1: "fl s \<le> 1" using fl_mono [OF assms(2)] by (simp add: fl_one)
  have "0 \<le> fl s * 100" using a0 by simp
  from fl_mono [OF this] have lo: "0 \<le> fl (fl s * 100)" by (simp add: fl_zero)
  have "fl s * 100 \<le> 100" using a1 by simp
  from fl_mono [OF this] have "fl (fl s * 100) \<le> 100" by (simp add: fl_hundred)
  with lo show ?thesis by simp
qed

lemma percentage_error:
  assumes "0 \<le> s"
  shows "\<bar>fl (fl s * 100) - 100 * s\<bar> \<le> 100 * s / 2 ^ 51"
proof -
  have a0: "0 \<le> fl s" using fl_mono [OF assms] by (simp add: fl_zero)
  have e1: "\<bar>fl s - s\<bar> \<le> s / 2 ^ 53" using fl_error [of s] assms by simp
  have e2: "\<bar>fl (fl s * 100) - fl s * 100\<bar> \<le> fl s * 100 / 2 ^ 53"
    using fl_error [of "fl s * 100"] a0 by simp
  have "s / 2 ^ 53 \<le> s" using assms by (simp add: field_simps)
  with e1 have a2: "fl s \<le> 2 * s" by linarith
  have "fl s * 100 / 2 ^ 53 \<le> 2 * s * 100 / 2 ^ 53"
    using a2 by (simp add: divide_right_mono)
  with e2 have e3: "\<bar>fl (fl s * 100) - fl s * 100\<bar> \<le> 200 * s / 2 ^ 53" by simp
  have "fl (fl s * 100) - 100 * s = (fl (fl s * 100) - fl s * 100) + 100 * (fl s - s)"
    by simp
  then have "\<bar>fl (fl s * 100) - 100 * s\<bar>
      \<le> \<bar>fl (fl s * 100) - fl s * 100\<bar> + \<bar>100 * (fl s - s)\<bar>"
    by (simp only: abs_triangle_ineq)
  also have "\<bar>100 * (fl s - s)\<bar> = 100 * \<bar>fl s - s\<bar>"
    by (simp only: abs_mult abs_numeral)
  finally have "\<bar>fl (fl s * 100) - 100 * s\<bar>
      \<le> \<bar>fl (fl s * 100) - fl s * 100\<bar> + 100 * \<bar>fl s - s\<bar>" .
  also have "\<dots> \<le> 200 * s / 2 ^ 53 + 100 * (s / 2 ^ 53)"
  proof (rule add_mono)
    show "\<bar>fl (fl s * 100) - fl s * 100\<bar> \<le> 200 * s / 2 ^ 53" by (rule e3)
    show "100 * \<bar>fl s - s\<bar> \<le> 100 * (s / 2 ^ 53)"
      using e1 by (rule mult_left_mono) simp
  qed
  also have "\<dots> \<le> 100 * s / 2 ^ 51" using assms by simp
  finally show ?thesis .
qed

text \<open>
  The numerator of the score is the same number with and without floating-point
  rounding when the two counts add up to less than \<open>2^52\<close>.
\<close>

lemma numerator_exact:
  assumes "e + p < 2 ^ 52"
  shows "fl (fl (fl (of_nat e) * 1) + fl (fl (of_nat p) * (1 / 2)))
           = of_nat e * 1 + of_nat p * (1 / 2)"
proof -
  have e53: "e < 2 ^ 53" and p53: "p < 2 ^ 53" and s53: "2 * e + p < 2 ^ 53"
    using assms by simp_all
  have half: "(2::rat) powi (- 1) = 1 / 2" by (simp add: power_int_def)
  have fe: "fl (of_nat e) = of_nat e" using fl_exact [OF e53, of 0] by simp
  have fp: "fl (of_nat p) = of_nat p" using fl_exact [OF p53, of 0] by simp
  have fh: "fl (of_nat p * (1 / 2)) = of_nat p * (1 / 2)"
    using fl_exact [OF p53, of "- 1"] by (simp only: half)
  have sum: "(of_nat e :: rat) + of_nat p * (1 / 2) = of_nat (2 * e + p) * (1 / 2)"
    by simp
  have "fl (of_nat (2 * e + p) * (1 / 2)) = of_nat (2 * e + p) * (1 / 2)"
    using fl_exact [OF s53, of "- 1"] by (simp only: half)
  then have fs: "fl (of_nat e + of_nat p * (1 / 2)) = of_nat e + of_nat p * (1 / 2)"
    by (simp only: sum)
  show ?thesis by (simp only: fe fp fh fs mult_1_right)
qed

text \<open>
  C1 (as amended). \<open>calculate_skill_match\<close> computes the score
  \<open>(exact * 1.0 + partial * 0.5) / max(len(required_skills), 1)\<close>, which lies in \<open>[0, 1]\<close>,
  in floating point and returns it on the percentage scale: \<open>match_percentage\<close> is the
  rounded product with 100 of the rounded score (the bound 100 of \<open>min\<close> is never
  exceeded). It lies in \<open>[0, 100]\<close> and differs from 100 times the exact score by at most
  that number times \<open>2^(-51)\<close>. For the user skills python, react against the required
  skills python, javascript, docker the result has the exact match python, the partial
  match of javascript through react with confidence \<open>0.7\<close>, the missing skill docker,
  \<open>total_required = 3\<close> and \<open>match_percentage = 50\<close> (a score of 0.5), without rounding
  error. For the user skill python against the required skills python, java, docker the
  score is a third and \<open>match_percentage\<close> is the float \<open>33.33333333333333\<close>, which is not
  \<open>100 / 3\<close>.
\<close>

theorem skill_match_score_formula:
  "match_percentage (calculate_skill_match us rs)
     = fl (fl ((of_nat (length (exact_matches (calculate_skill_match us rs))) * 1
            + of_nat (length (partial_matches (calculate_skill_match us rs))) * (1 / 2))
           / of_nat (max (length rs) 1)) * 100)
   \<and> 0 \<le> (of_nat (length (exact_matches (calculate_skill_match us rs))) * 1
            + of_nat (length (partial_matches (calculate_skill_match us rs))) * (1 / 2))
           / (of_nat (max (length rs) 1) :: rat)
   \<and> (of_nat (length (exact_matches (calculate_skill_match us rs))) * 1
            + of_nat (length (partial_matches (calculate_skill_match us rs))) * (1 / 2))
           / (of_nat (max (length rs) 1) :: rat) \<le> 1
   \<and> 0 \<le> match_percentage (calculate_skill_match us rs)
   \<and> match_percentage (calculate_skill_match us rs) \<le> 100
   \<and> \<bar>match_percentage (calculate_skill_match us rs)
        - 100 * ((of_nat (length (exact_matches (calculate_skill_match us rs))) * 1
            + of_nat (length (partial_matches (calculate_skill_match us rs))) * (1 / 2))
           / of_nat (max (length rs) 1))\<bar>
       \<le> 100 * ((of_nat (length (exact_matches (calculate_skill_match us rs))) * 1
            + of_nat (length (partial_matches (calculate_skill_match us rs))) * (1 / 2))
           / of_nat (max (length rs) 1)) / 2 ^ 51
   \<and> calculate_skill_match [''python'', ''react''] [''python'', ''javascript'', ''docker'']
     = \<lparr>exact_matches = [''python''],
        partial_matches = [\<lparr>required_skill = ''javascript'', user_skill = ''react'',
                             confidence = 3152519739159347 / 4503599627370496\<rparr>],
        missing_skills = [''docker''],
        match_percentage = 50,
        total_required = 3\<rparr>
   \<and> calculate_skill_match [''python''] [''python'', ''java'', ''docker'']
     = \<lparr>exact_matches = [''python''],
        partial_matches = [],
        missing_skills = [''java'', ''docker''],
        match_percentage = 2345624805922133 / 70368744177664,
        total_required = 3\<rparr>"
proof -
  let ?q = "(of_nat (length (exact_matches (calculate_skill_match us rs))) * 1
            + of_nat (length (partial_matches (calculate_skill_match us rs))) * (1 / 2))
           / (of_nat (max (length rs) 1) :: rat)"
  let ?m = "match_percentage (calculate_skill_match us rs)"
  have b: "0 \<le> ?q \<and> ?q \<le> 1" by (rule score_bounds)
  then have b0: "0 \<le> ?q" and b1: "?q \<le> 1" by simp_all
  have pb: "0 \<le> fl (fl ?q * 100) \<and> fl (fl ?q * 100) \<le> 100"
    using b0 b1 by (rule percentage_bounds)
  have "?m = min 100 (fl (fl ?q * 100))" by (rule calc_percentage)
  also have "\<dots> = fl (fl ?q * 100)" using pb by (simp only: min_def split: if_splits) simp
  finally have p: "?m = fl (fl ?q * 100)" .
  have m0: "0 \<le> ?m" and m1: "?m \<le> 100" using pb by (simp_all only: p)
  have "\<bar>fl (fl ?q * 100) - 100 * ?q\<bar> \<le> 100 * ?q / 2 ^ 51"
    using b0 by (rule percentage_error)
  then have err: "\<bar>?m - 100 * ?q\<bar> \<le> 100 * ?q / 2 ^ 51" by (simp only: p)
  have s: "calculate_skill_match [''python'', ''react''] [''python'', ''javascript'', ''docker'']
     = \<lparr>exact_matches = [''python''],
        partial_matches = [\<lparr>required_skill = ''javascript'', user_skill = ''react'',
                             confidence = 3152519739159347 / 4503599627370496\<rparr>],
        missing_skills = [''docker''],
        match_percentage = 50,
        total_required = 3\<rparr>"
    by code_simp
  have t: "calculate_skill_match [''python''] [''python'', ''java'', ''docker'']
     = \<lparr>exact_matches = [''python''],
        partial_matches = [],
        missing_skills = [''java'', ''docker''],
        match_percentage = 2345624805922133 / 70368744177664,
        total_required = 3\<rparr>"
    by code_simp
  from p b0 b1 m0 m1 err s t show ?thesis by (intro conjI)
qed

text \<open>
  C1 as stated fails on the scale of the returned number: for the scenario the number
  returned by \<open>calculate_skill_match\<close> is 50, not 0.5.
\<close>

theorem skill_match_score_counterexample:
  "match_percentage
     (calculate_skill_match [''python'', ''react''] [''python'', ''javascript'', ''docker''])
   \<noteq> 1 / 2"
  by code_simp

text \<open>
  C2. Take two calls of \<open>calculate_skill_match\<close> with the same number of required skills
  whose classifications agree at every position but one, where the first call does not
  classify the required skill as an exact match (it is missing or partial) and the second
  does. Then the returned match score of the second call is not lower.
\<close>

theorem exact_match_monotone:
  assumes len: "length rs' = length rs"
    and i: "i < length rs"
    and before: "skill_class (map str_lower us) (rs ! i) \<noteq> Exact"
    and after: "skill_class (map str_lower us') (rs' ! i) = Exact"
    and others: "\<forall>j < length rs. j \<noteq> i \<longrightarrow>
        skill_class (map str_lower us') (rs' ! j) = skill_class (map str_lower us) (rs ! j)"
  shows "match_percentage (calculate_skill_match us rs)
           \<le> match_percentage (calculate_skill_match us' rs')"
proof -
  let ?cs = "map (skill_class (map str_lower us)) rs"
  let ?cs' = "map (skill_class (map str_lower us')) rs'"
  let ?e = "length (exact_matches (calculate_skill_match us rs))"
  let ?p = "length (partial_matches (calculate_skill_match us rs))"
  let ?e' = "length (exact_matches (calculate_skill_match us' rs'))"
  let ?p' = "length (partial_matches (calculate_skill_match us' rs'))"
  have upd: "?cs' = ?cs[i := Exact]"
  proof (rule nth_equalityI)
    show "length ?cs' = length (?cs[i := Exact])" using len by simp
  next
    fix j assume "j < length ?cs'"
    then have j: "j < length rs" using len by simp
    show "?cs' ! j = ?cs[i := Exact] ! j"
    proof (cases "j = i")
      case True
      then show ?thesis using j len after by simp
    next
      case False
      then show ?thesis using j len others by simp
    qed
  qed
  have il: "i < length ?cs" using i by simp
  have e: "?e = length (filter (\<lambda>k. k = Exact) ?cs)"
    by (simp add: calc_exact count_class)
  have e': "?e' = length (filter (\<lambda>k. k = Exact) ?cs')"
    by (simp add: calc_exact count_class)
  have p: "?p = length (filter (\<lambda>k. k = Partial) ?cs)"
    by (simp add: calc_partial count_class)
  have p': "?p' = length (filter (\<lambda>k. k = Partial) ?cs')"
    by (simp add: calc_partial count_class)
  have ci: "?cs ! i \<noteq> Exact" using i before by simp
  have ee: "?e' = ?e + 1"
    using filter_update_length [OF il, of "\<lambda>k. k = Exact" Exact] ci
    unfolding e e' upd by simp
  have pp: "?p' + (if ?cs ! i = Partial then 1 else 0) = ?p"
    using filter_update_length [OF il, of "\<lambda>k. k = Partial" Exact]
    unfolding p p' upd by simp
  have "?p \<le> ?p' + 1" using pp by (simp split: if_splits)
  then have "(of_nat ?p :: rat) \<le> of_nat (?p' + 1)"
    by (simp only: of_nat_le_iff)
  then have "(of_nat ?p :: rat) \<le> of_nat ?p' + 1"
    by simp
  moreover have "(of_nat ?e' :: rat) = of_nat ?e + 1" using ee by simp
  ultimately have num: "(of_nat ?e * 1 + of_nat ?p * (1 / 2) :: rat)
      \<le> of_nat ?e' * 1 + of_nat ?p' * (1 / 2)"
    by simp
  have "(of_nat ?e * 1 + of_nat ?p * (1 / 2)) / (of_nat (max (length rs) 1) :: rat)
      \<le> (of_nat ?e' * 1 + of_nat ?p' * (1 / 2)) / (of_nat (max (length rs) 1) :: rat)"
    using num by (simp add: divide_right_mono)
  then have "fl ((of_nat ?e * 1 + of_nat ?p * (1 / 2)) / (of_nat (max (length rs) 1) :: rat))
      \<le> fl ((of_nat ?e' * 1 + of_nat ?p' * (1 / 2)) / (of_nat (max (length rs) 1) :: rat))"
    by (rule fl_mono)
  then have
    "fl ((of_nat ?e * 1 + of_nat ?p * (1 / 2)) / (of_nat (max (length rs) 1) :: rat)) * 100
      \<le> fl ((of_nat ?e' * 1 + of_nat ?p' * (1 / 2)) / (of_nat (max (length rs) 1) :: rat)) * 100"
    by simp
  then have
    "fl (fl ((of_nat ?e * 1 + of_nat ?p * (1 / 2)) / (of_nat (max (length rs) 1) :: rat)) * 100)
      \<le> fl (fl ((of_nat ?e' * 1 + of_nat ?p' * (1 / 2)) / (of_nat (max (length rs) 1) :: rat))
              * 100)"
    by (rule fl_mono)
  then show ?thesis
    unfolding calc_percentage len by (simp add: min_le_iff_disj)
qed

theorem exact_match_monotone_witness:
  "skill_class (map str_lower [''python'', ''react''])
       ([''python'', ''javascript'', ''docker''] ! 2) = Missing
   \<and> skill_class (map str_lower [''python'', ''react'', ''docker''])
       ([''python'', ''javascript'', ''docker''] ! 2) = Exact
   \<and> match_percentage
         (calculate_skill_match [''python'', ''react''] [''python'', ''javascript'', ''docker''])
       \<le> match_percentage
         (calculate_skill_match [''python'', ''react'', ''docker'']
            [''python'', ''javascript'', ''docker''])"
proof -
  let ?rs = "[''python'', ''javascript'', ''docker'']"
  let ?us = "[''python'', ''react'']"
  let ?us' = "[''python'', ''react'', ''docker'']"
  have b: "skill_class (map str_lower ?us) (?rs ! 2) = Missing" by code_simp
  have a: "skill_class (map str_lower ?us') (?rs ! 2) = Exact" by code_simp
  have c0: "skill_class (map str_lower ?us') (?rs ! 0) = skill_class (map str_lower ?us) (?rs ! 0)"
    by code_simp
  have c1: "skill_class (map str_lower ?us') (?rs ! 1) = skill_class (map str_lower ?us) (?rs ! 1)"
    by code_simp
  have others: "\<forall>j < length ?rs. j \<noteq> 2 \<longrightarrow>
      skill_class (map str_lower ?us') (?rs ! j) = skill_class (map str_lower ?us) (?rs ! j)"
  proof (intro allI impI)
    fix j :: nat
    assume "j < length ?rs" and "j \<noteq> 2"
    then have "j = 0 \<or> j = 1" by auto
    then show "skill_class (map str_lower ?us') (?rs ! j) = skill_class (map str_lower ?us) (?rs ! j)"
      using c0 c1 by (metis)
  qed
  have nb: "skill_class (map str_lower ?us) (?rs ! 2) \<noteq> Exact" using b by simp
  have "match_percentage (calculate_skill_match ?us ?rs)
       \<le> match_percentage (calculate_skill_match ?us' ?rs)"
    by (rule exact_match_monotone [of ?rs ?rs 2 ?us ?us', OF _ _ nb a others]) simp_all
  with a b show ?thesis by blast
qed

text \<open>
  C10. The breakdown returned by \<open>calculate_skill_match\<close> partitions the required
  skills: the exact matches, the \<open>required_skill\<close> fields of the partial matches and the
  missing skills together are exactly the required skills (with multiplicity), no skill
  appears in two of the three lists, the three lengths sum to the number of required
  skills, and \<open>total_required\<close> is that number when it is positive and 1 for the empty list.
\<close>

theorem skill_match_partition:
  "mset (exact_matches (calculate_skill_match us rs))
     + mset (map required_skill (partial_matches (calculate_skill_match us rs)))
     + mset (missing_skills (calculate_skill_match us rs)) = mset rs
   \<and> set (exact_matches (calculate_skill_match us rs))
       \<inter> set (map required_skill (partial_matches (calculate_skill_match us rs))) = {}
   \<and> set (exact_matches (calculate_skill_match us rs))
       \<inter> set (missing_skills (calculate_skill_match us rs)) = {}
   \<and> set (map required_skill (partial_matches (calculate_skill_match us rs)))
       \<inter> set (missing_skills (calculate_skill_match us rs)) = {}
   \<and> length (exact_matches (calculate_skill_match us rs))
       + length (partial_matches (calculate_skill_match us rs))
       + length (missing_skills (calculate_skill_match us rs)) = length rs
   \<and> total_required (calculate_skill_match us rs) = max (length rs) 1"
proof -
  let ?usl = "map str_lower us"
  have len: "length (partial_matches (calculate_skill_match us rs))
      = length (filter (\<lambda>r. skill_class ?usl r = Partial) rs)"
    by (simp add: calc_partial)
  show ?thesis
    unfolding calc_exact calc_missing calc_total len
    unfolding calc_partial required_skill_mk_partial
    using class_partition_mset [of ?usl rs] class_partition_length [of ?usl rs]
    by auto
qed

section \<open>Properties of the deduplicator\<close>

lemma dedup_loop_keep_first:
  "dedup_loop key xs seen acc = acc @ keep_first key seen xs"
  by (induction xs arbitrary: seen acc) simp_all

lemma keep_first_subseq: "subseq (keep_first key seen xs) xs"
  by (induction xs arbitrary: seen) (auto intro: list_emb_Cons)

lemma keep_first_keys:
  "set (map key (keep_first key seen xs)) = key ` set xs - seen"
  by (induction xs arbitrary: seen) auto

lemma keep_first_distinct: "distinct (map key (keep_first key seen xs))"
proof (induction xs arbitrary: seen)
  case Nil
  then show ?case by simp
next
  case (Cons x xs)
  have "key x \<notin> set (map key (keep_first key (insert (key x) seen) xs))"
    by (simp only: keep_first_keys) simp
  with Cons show ?case by simp
qed

lemma keep_first_find:
  "x \<in> set (keep_first key seen xs) \<Longrightarrow> find (\<lambda>y. key y = key x) xs = Some x"
proof (induction xs arbitrary: seen)
  case Nil
  then show ?case by simp
next
  case (Cons a xs)
  show ?case
  proof (cases "key a \<in> seen")
    case True
    with Cons.prems have mem: "x \<in> set (keep_first key seen xs)" by simp
    then have "key x \<in> set (map key (keep_first key seen xs))" by simp
    then have "key x \<notin> seen" by (simp only: keep_first_keys) simp
    with True have "key a \<noteq> key x" by auto
    with Cons.IH [OF mem] show ?thesis by simp
  next
    case False
    with Cons.prems have "x = a \<or> x \<in> set (keep_first key (insert (key a) seen) xs)" by simp
    then show ?thesis
    proof
      assume "x = a"
      then show ?thesis by simp
    next
      assume mem: "x \<in> set (keep_first key (insert (key a) seen) xs)"
      then have "key x \<in> set (map key (keep_first key (insert (key a) seen) xs))" by simp
      then have "key x \<notin> insert (key a) seen" by (simp only: keep_first_keys) simp
      then have "key a \<noteq> key x" by auto
      with Cons.IH [OF mem] show ?thesis by simp
    qed
  qed
qed

lemma keep_first_find_map:
  "map (\<lambda>x. find (\<lambda>y. key y = key x) xs) (keep_first key seen xs)
     = map Some (keep_first key seen xs)"
  by (rule map_cong [OF refl]) (rule keep_first_find)

lemma dedup_loop_first_occurrence:
  "subseq (dedup_loop key jobs {} []) jobs
   \<and> distinct (map key (dedup_loop key jobs {} []))
   \<and> set (map key (dedup_loop key jobs {} [])) = set (map key jobs)
   \<and> map (\<lambda>x. find (\<lambda>y. key y = key x) jobs) (dedup_loop key jobs {} [])
       = map Some (dedup_loop key jobs {} [])"
proof -
  have keys: "set (map key (keep_first key {} jobs)) = set (map key jobs)"
    by (simp only: keep_first_keys) simp
  show ?thesis
    unfolding dedup_loop_keep_first append_Nil
    using keep_first_subseq [of key "{}" jobs] keep_first_distinct [of key "{}" jobs]
      keep_first_find_map [of key jobs "{}"] keys
    by blast
qed

text \<open>
  The deduplicator of \<open>SimpleScraperAgent\<close> returns the subsequence that keeps only the
  first occurrence of each identity key: the result is a subsequence of the input, its
  keys are distinct, every key of the input occurs in it, and each kept listing is the
  first listing of the input with its key. Its key is the lower-cased, trimmed title,
  the separator \<open>|\<close> and the lower-cased, trimmed company, so that the listings
  ("Backend Engineer", "Acme") and ("backend engineer", " Acme ") deduplicate to the
  first of them.
\<close>

lemma simple_remove_duplicates_first_occurrence:
  "subseq (simple_remove_duplicates jobs) jobs
   \<and> distinct (map listing_key (simple_remove_duplicates jobs))
   \<and> set (map listing_key (simple_remove_duplicates jobs)) = set (map listing_key jobs)
   \<and> map (\<lambda>x. find (\<lambda>y. listing_key y = listing_key x) jobs) (simple_remove_duplicates jobs)
       = map Some (simple_remove_duplicates jobs)
   \<and> listing_key job
       = str_strip (str_lower (title job)) @ ''|'' @ str_strip (str_lower (company job))
   \<and> simple_remove_duplicates
         [JobListing ''Backend Engineer'' ''Acme'' l1 d1 u1,
          JobListing ''backend engineer'' '' Acme '' l2 d2 u2]
       = [JobListing ''Backend Engineer'' ''Acme'' l1 d1 u1]"
proof -
  have k1: "listing_key (JobListing ''Backend Engineer'' ''Acme'' l1 d1 u1) = ''backend engineer|acme''"
    unfolding listing_key_def JobListing_def by code_simp
  have k2: "listing_key (JobListing ''backend engineer'' '' Acme '' l2 d2 u2) = ''backend engineer|acme''"
    unfolding listing_key_def JobListing_def by code_simp
  have scen: "simple_remove_duplicates
         [JobListing ''Backend Engineer'' ''Acme'' l1 d1 u1,
          JobListing ''backend engineer'' '' Acme '' l2 d2 u2]
       = [JobListing ''Backend Engineer'' ''Acme'' l1 d1 u1]"
    by (simp add: simple_remove_duplicates_def k1 k2)
  have gen: "subseq (simple_remove_duplicates jobs) jobs
   \<and> distinct (map listing_key (simple_remove_duplicates jobs))
   \<and> set (map listing_key (simple_remove_duplicates jobs)) = set (map listing_key jobs)
   \<and> map (\<lambda>x. find (\<lambda>y. listing_key y = listing_key x) jobs) (simple_remove_duplicates jobs)
       = map Some (simple_remove_duplicates jobs)"
    unfolding simple_remove_duplicates_def by (rule dedup_loop_first_occurrence)
  show ?thesis using gen scen by (simp add: listing_key_def)
qed

text \<open>
  The deduplicator of \<open>ScraperAgent\<close> keeps the first occurrence of each of its keys as
  well.
\<close>

lemma remove_duplicates_first_occurrence:
  "subseq (remove_duplicates jobs) jobs
   \<and> distinct (map dict_key (remove_duplicates jobs))
   \<and> set (map dict_key (remove_duplicates jobs)) = set (map dict_key jobs)
   \<and> map (\<lambda>x. find (\<lambda>y. dict_key y = dict_key x) jobs) (remove_duplicates jobs)
       = map Some (remove_duplicates jobs)"
  unfolding remove_duplicates_def by (rule dedup_loop_first_occurrence)

text \<open>
  C3. The claim asks of the deduplicator that listings whose lower-cased, trimmed titles
  and companies agree collapse to the first of them, so that ("Backend Engineer", "Acme")
  and ("backend engineer", " Acme ") leave one entry. \<open>SimpleScraperAgent\<close> does that
  (\<open>simple_remove_duplicates_first_occurrence\<close>). \<open>ScraperAgent._remove_duplicates\<close>
  lower-cases without trimming: on the two listings of the scenario its keys are
  \<open>backend engineer_acme\<close> and \<open>backend engineer_ acme \<close>, and it returns both.
\<close>

theorem remove_duplicates_untrimmed:
  "dict_key [''title'' \<mapsto> ''Backend Engineer'', ''company'' \<mapsto> ''Acme'']
     = ''backend engineer_acme''
   \<and> dict_key [''title'' \<mapsto> ''backend engineer'', ''company'' \<mapsto> '' Acme '']
     = ''backend engineer_ acme ''
   \<and> remove_duplicates
       [[''title'' \<mapsto> ''Backend Engineer'', ''company'' \<mapsto> ''Acme''],
        [''title'' \<mapsto> ''backend engineer'', ''company'' \<mapsto> '' Acme '']]
     = [[''title'' \<mapsto> ''Backend Engineer'', ''company'' \<mapsto> ''Acme''],
        [''title'' \<mapsto> ''backend engineer'', ''company'' \<mapsto> '' Acme '']]
   \<and> simple_remove_duplicates
       [JobListing ''Backend Engineer'' ''Acme'' [] [] [],
        JobListing ''backend engineer'' '' Acme '' [] [] []]
     = [JobListing ''Backend Engineer'' ''Acme'' [] [] []]"
proof -
  have low: "str_lower ''Backend Engineer'' = ''backend engineer''"
    "str_lower ''backend engineer'' = ''backend engineer''"
    "str_lower ''Acme'' = ''acme''" "str_lower '' Acme '' = '' acme ''"
    by code_simp+
  have k1: "dict_key [''title'' \<mapsto> ''Backend Engineer'', ''company'' \<mapsto> ''Acme'']
     = ''backend engineer_acme''"
    by (simp add: dict_key_def dict_get_def low)
  have k2: "dict_key [''title'' \<mapsto> ''backend engineer'', ''company'' \<mapsto> '' Acme '']
     = ''backend engineer_ acme ''"
    by (simp add: dict_key_def dict_get_def low)
  have both: "remove_duplicates
       [[''title'' \<mapsto> ''Backend Engineer'', ''company'' \<mapsto> ''Acme''],
        [''title'' \<mapsto> ''backend engineer'', ''company'' \<mapsto> '' Acme '']]
     = [[''title'' \<mapsto> ''Backend Engineer'', ''company'' \<mapsto> ''Acme''],
        [''title'' \<mapsto> ''backend engineer'', ''company'' \<mapsto> '' Acme '']]"
    by (simp add: remove_duplicates_def k1 k2)
  have one: "simple_remove_duplicates
       [JobListing ''Backend Engineer'' ''Acme'' [] [] [],
        JobListing ''backend engineer'' '' Acme '' [] [] []]
     = [JobListing ''Backend Engineer'' ''Acme'' [] [] []]"
    by (rule simple_remove_duplicates_first_occurrence
        [THEN conjunct2, THEN conjunct2, THEN conjunct2, THEN conjunct2, THEN conjunct2])
  from k1 k2 both one show ?thesis by (intro conjI)
qed

section \<open>Properties of the feature extractor\<close>

lemma found_entries_subset:
  "set (found_entries catalogue text) \<subseteq> set (map fst catalogue)"
  unfolding found_entries_def by auto

text \<open>
  C9. The three extraction operations are total: none of the operations they use (the
  emptiness test, \<open>str.lower\<close>, \<open>re.search\<close> with the fixed patterns) can raise on a
  string or on a missing text, so they have no error outcome. For every text they return
  names of their catalogues only, and for the empty text and for a missing text they
  return the empty skill list, the empty benefit list and no company size.
\<close>

theorem extraction_of_empty_text:
  "extract_skills_from_job_text None = []
   \<and> extract_skills_from_job_text (Some []) = []
   \<and> extract_benefits_from_text None = []
   \<and> extract_benefits_from_text (Some []) = []
   \<and> extract_company_size_from_text None = None
   \<and> extract_company_size_from_text (Some []) = None
   \<and> set (extract_skills_from_job_text text) \<subseteq> set (map fst skill_patterns)
   \<and> set (extract_benefits_from_text text) \<subseteq> set (map fst benefit_patterns)
   \<and> set_option (extract_company_size_from_text text) \<subseteq> set (map fst size_patterns)"
proof -
  have s: "set (extract_skills_from_job_text text) \<subseteq> set (map fst skill_patterns)"
    using found_entries_subset [of skill_patterns]
    by (auto simp: extract_skills_from_job_text_def split: option.splits)
  have b: "set (extract_benefits_from_text text) \<subseteq> set (map fst benefit_patterns)"
    using found_entries_subset [of benefit_patterns]
    by (auto simp: extract_benefits_from_text_def split: option.splits)
  have c: "set_option (extract_company_size_from_text text) \<subseteq> set (map fst size_patterns)"
  proof (cases "extract_company_size_from_text text")
    case None
    then show ?thesis by simp
  next
    case (Some found)
    then obtain t rest where "found_entries size_patterns (str_lower t) = found # rest"
      by (auto simp: extract_company_size_from_text_def split: option.splits if_splits list.splits)
    then have "found \<in> set (found_entries size_patterns (str_lower t))" by simp
    then have "found \<in> set (map fst size_patterns)"
      using found_entries_subset [of size_patterns "str_lower t"] by blast
    with Some show ?thesis by simp
  qed
  show ?thesis
    using s b c
    by (simp add: extract_skills_from_job_text_def extract_benefits_from_text_def
        extract_company_size_from_text_def)
qed

section \<open>Properties of the application dispatcher\<close>

lemma apply_loop_limit:
  "applications_today agent \<ge> max_applications_per_day agent \<Longrightarrow>
   apply_loop env up uid jids (rs, agent) = (rs, agent)"
  by (cases jids) simp_all

lemma apply_loop_counter:
  "apply_loop env up uid jids (rs, agent) = (rs', agent') \<Longrightarrow>
   browser agent' = browser agent
   \<and> max_applications_per_day agent' = max_applications_per_day agent
   \<and> applications_today agent' + int (length (filter success rs))
       = applications_today agent + int (length (filter success rs'))
   \<and> length rs \<le> length rs' \<and> length rs' \<le> length rs + length jids
   \<and> applications_today agent'
       \<le> max (applications_today agent) (max_applications_per_day agent)"
proof (induction jids arbitrary: rs agent)
  case Nil
  then show ?case by auto
next
  case (Cons jid rest)
  show ?case
  proof (cases "applications_today agent \<ge> max_applications_per_day agent")
    case True
    with Cons.prems show ?thesis by auto
  next
    case False
    note open_quota = this
    show ?thesis
    proof (cases "get_job_details env jid")
      case None
      with open_quota Cons.prems
      have "apply_loop env up uid rest (rs, agent) = (rs', agent')" by simp
      from Cons.IH [OF this] show ?thesis by auto
    next
      case (Some job)
      show ?thesis
      proof (cases "apply_to_job env up job")
        case (Inl e)
        with Some open_quota Cons.prems
        have "apply_loop env up uid rest (rs @ [exception_result jid e], agent) = (rs', agent')"
          by (simp add: check_existing_application_def)
        from Cons.IH [OF this] show ?thesis by (auto simp: exception_result_def)
      next
        case (Inr r)
        show ?thesis
        proof (cases "success r")
          case True
          with Inr Some open_quota Cons.prems
          have "apply_loop env up uid rest
                  (rs @ [r], agent\<lparr>applications_today := applications_today agent + 1\<rparr>)
                = (rs', agent')"
            by (simp add: check_existing_application_def)
          from Cons.IH [OF this] True open_quota show ?thesis by auto
        next
          case False
          with Inr Some open_quota Cons.prems
          have "apply_loop env up uid rest (rs @ [r], agent) = (rs', agent')"
            by (simp add: check_existing_application_def)
          from Cons.IH [OF this] False show ?thesis by auto
        qed
      qed
    qed
  qed
qed

lemma apply_loop_room:
  "applications_today agent + int (length jids) \<le> max_applications_per_day agent \<Longrightarrow>
   fst (apply_loop env up uid jids (rs, agent))
     = rs @ List.map_filter (task_result env up uid) jids"
proof (induction jids arbitrary: rs agent)
  case Nil
  then show ?case by (simp add: List.map_filter_simps)
next
  case (Cons jid rest)
  then have open_quota: "\<not> applications_today agent \<ge> max_applications_per_day agent"
    by simp
  have room: "applications_today agent + int (length rest) \<le> max_applications_per_day agent"
    and room1: "applications_today agent + 1 + int (length rest) \<le> max_applications_per_day agent"
    using Cons.prems by simp_all
  show ?case
  proof (cases "get_job_details env jid")
    case None
    then have tr: "task_result env up uid jid = None"
      by (simp add: task_result_def)
    from None open_quota Cons.IH [OF room] show ?thesis
      by (simp add: tr List.map_filter_simps)
  next
    case (Some job)
    show ?thesis
    proof (cases "apply_to_job env up job")
      case (Inl e)
      with Some have tr: "task_result env up uid jid = Some (exception_result jid e)"
        by (simp add: task_result_def check_existing_application_def)
      from Inl Some open_quota Cons.IH [OF room] show ?thesis
        by (simp add: tr List.map_filter_simps check_existing_application_def)
    next
      case (Inr r)
      with Some have tr: "task_result env up uid jid = Some r"
        by (simp add: task_result_def check_existing_application_def)
      show ?thesis
      proof (cases "success r")
        case True
        have "fst (apply_loop env up uid rest
                (rs @ [r], agent\<lparr>applications_today := applications_today agent + 1\<rparr>))
              = (rs @ [r]) @ List.map_filter (task_result env up uid) rest"
          by (rule Cons.IH) (use room1 in simp)
        with True Inr Some open_quota show ?thesis
          by (simp add: tr List.map_filter_simps check_existing_application_def)
      next
        case False
        with Inr Some open_quota Cons.IH [OF room] show ?thesis
          by (simp add: tr List.map_filter_simps check_existing_application_def)
      qed
    qed
  qed
qed

lemma map_filter_all_some:
  "(\<And>x. x \<in> set xs \<Longrightarrow> f x \<noteq> None) \<Longrightarrow> length (List.map_filter f xs) = length xs"
proof (induction xs)
  case Nil
  then show ?case by (simp add: List.map_filter_simps)
next
  case (Cons a xs)
  then obtain y where "f a = Some y" by fastforce
  moreover have "length (List.map_filter f xs) = length xs"
    using Cons by simp
  ultimately show ?case by (simp add: List.map_filter_simps)
qed

lemma unavailable_no_success: "filter success (map unavailable_result jids) = []"
  by (induction jids) (simp_all add: unavailable_result_def)

lemma auto_apply_counter:
  assumes run: "auto_apply_to_jobs env agent uid jids = (out, agent')"
  shows "browser agent' = browser agent
   \<and> max_applications_per_day agent' = max_applications_per_day agent
   \<and> applications_today agent \<le> applications_today agent'
   \<and> applications_today agent'
       \<le> max (applications_today agent) (max_applications_per_day agent)
   \<and> (\<forall>results. out = Inr results \<longrightarrow>
         applications_today agent'
           = applications_today agent + int (length (filter success results))
         \<and> length results \<le> length jids)"
proof (cases "browser agent = NoBrowser
    \<or> applications_today agent \<ge> max_applications_per_day agent")
  case True
  with run have "agent' = agent"
    and "out = Inr (map unavailable_result jids) \<or> out = Inr []"
    by (auto simp: auto_apply_to_jobs_def split: if_splits)
  then show ?thesis by (auto simp: unavailable_no_success)
next
  case False
  note proceed = this
  show ?thesis
  proof (cases "get_user_profile env uid")
    case (Inl e)
    with proceed run have "agent' = agent" and "out = Inl (Error e)"
      by (auto simp: auto_apply_to_jobs_def)
    then show ?thesis by simp
  next
    case (Inr prof)
    show ?thesis
    proof (cases prof)
      case None
      with Inr proceed run have "agent' = agent" and "\<exists>e. out = Inl e"
        by (auto simp: auto_apply_to_jobs_def)
      then show ?thesis by auto
    next
      case (Some up)
      show ?thesis
      proof (cases "log_system_activity env ''auto_apply_start''")
        case (Some e)
        with \<open>prof = Some up\<close> Inr proceed run have "agent' = agent" and "out = Inl (Error e)"
          by (auto simp: auto_apply_to_jobs_def)
        then show ?thesis by simp
      next
        case None
        obtain rs a where loop: "apply_loop env up uid jids ([], agent) = (rs, a)"
          by (cases "apply_loop env up uid jids ([], agent)")
        from apply_loop_counter [OF loop]
        have c: "browser a = browser agent"
          "max_applications_per_day a = max_applications_per_day agent"
          "applications_today a = applications_today agent + int (length (filter success rs))"
          "length rs \<le> length jids"
          "applications_today a \<le> max (applications_today agent) (max_applications_per_day agent)"
          by simp_all
        from None \<open>prof = Some up\<close> Inr proceed run loop
        have "agent' = a" and "out = Inr rs \<or> (\<exists>e. out = Inl e)"
          by (auto simp: auto_apply_to_jobs_def split: option.splits)
        with c show ?thesis by auto
      qed
    qed
  qed
qed

lemma auto_apply_limit:
  "applications_today agent \<ge> max_applications_per_day agent \<Longrightarrow>
   auto_apply_to_jobs env agent uid jids
     = (Inr (if browser agent = NoBrowser then map unavailable_result jids else []), agent)"
  by (simp add: auto_apply_to_jobs_def)

lemma auto_apply_room:
  assumes run: "auto_apply_to_jobs env agent uid jids = (Inr results, agent')"
    and br: "browser agent \<noteq> NoBrowser"
    and prof: "get_user_profile env uid = Inr (Some up)"
    and room: "applications_today agent + int (length jids) \<le> max_applications_per_day agent"
  shows "results = List.map_filter (task_result env up uid) jids"
proof (cases "applications_today agent \<ge> max_applications_per_day agent")
  case True
  with room have "int (length jids) \<le> 0" by linarith
  then have "jids = []" by simp
  with True br run show ?thesis
    by (simp add: auto_apply_to_jobs_def List.map_filter_simps)
next
  case False
  obtain rs a where loop: "apply_loop env up uid jids ([], agent) = (rs, a)"
    by (cases "apply_loop env up uid jids ([], agent)")
  from apply_loop_room [OF room, of env up uid "[]"] loop
  have rs: "rs = List.map_filter (task_result env up uid) jids" by simp
  from False br prof run loop have "results = rs"
    by (auto simp: auto_apply_to_jobs_def split: option.splits)
  with rs show ?thesis by simp
qed

text \<open>
  C4 (as amended). A dispatch never changes the ceiling and never lowers the counter;
  the counter stays at or below the ceiling when it starts there, and when results are
  returned it has grown by exactly the number of successful results. Once the counter
  has reached \<open>max_applications_per_day\<close>, a dispatch attempts no submission: it changes
  nothing and returns no result of a submission, and the loop stops at the first task it
  meets in that state. No dispatch resets the counter: it is set by \<open>initialize\<close> only, to
  the value of \<open>_get_applications_today\<close>, which is the constant 0.
\<close>

theorem daily_limit:
  assumes run: "auto_apply_to_jobs env agent uid jids = (out, agent')"
  shows "max_applications_per_day agent' = max_applications_per_day agent
   \<and> applications_today agent \<le> applications_today agent'
   \<and> applications_today agent'
       \<le> max (applications_today agent) (max_applications_per_day agent)
   \<and> (\<forall>results. out = Inr results \<longrightarrow>
         applications_today agent'
           = applications_today agent + int (length (filter success results)))
   \<and> (applications_today agent \<ge> max_applications_per_day agent \<longrightarrow>
         agent' = agent
         \<and> out = Inr (if browser agent = NoBrowser then map unavailable_result jids else [])
         \<and> apply_loop env up uid jids (rs, agent) = (rs, agent))
   \<and> applications_today (initialize True agent) = get_applications_today
   \<and> get_applications_today = 0"
proof -
  note c = auto_apply_counter [OF run]
  have lim: "applications_today agent \<ge> max_applications_per_day agent \<longrightarrow>
         agent' = agent
         \<and> out = Inr (if browser agent = NoBrowser then map unavailable_result jids else [])
         \<and> apply_loop env up uid jids (rs, agent) = (rs, agent)"
  proof
    assume full: "applications_today agent \<ge> max_applications_per_day agent"
    from auto_apply_limit [OF full, of env uid jids] run
    have "agent' = agent"
      and "out = Inr (if browser agent = NoBrowser then map unavailable_result jids else [])"
      by simp_all
    with apply_loop_limit [OF full] show "agent' = agent
         \<and> out = Inr (if browser agent = NoBrowser then map unavailable_result jids else [])
         \<and> apply_loop env up uid jids (rs, agent) = (rs, agent)" by simp
  qed
  have ini: "applications_today (initialize True agent) = get_applications_today
      \<and> get_applications_today = 0"
    by (simp add: initialize_def get_applications_today_def)
  from c lim ini show ?thesis by blast
qed

theorem daily_limit_witness:
  "auto_apply_to_jobs example_env (ready_agent 0 10) 1 [1, 2, 3]
     = (Inr [submitted 1, exception_result 2 ''submission error'', submitted 3],
        ready_agent 2 10)
   \<and> applications_today (ready_agent 2 10)
     = applications_today (ready_agent 0 10)
       + int (length (filter success
           [submitted 1, exception_result 2 ''submission error'', submitted 3]))
   \<and> applications_today (ready_agent 2 10) \<le> 10
   \<and> auto_apply_to_jobs accepting_env (ready_agent 10 10) 1 [7] = (Inr [], ready_agent 10 10)
   \<and> apply_loop accepting_env () 1 [7] ([], ready_agent 10 10) = ([], ready_agent 10 10)"
proof -
  have run: "auto_apply_to_jobs example_env (ready_agent 0 10) 1 [1, 2, 3]
     = (Inr [submitted 1, exception_result 2 ''submission error'', submitted 3],
        ready_agent 2 10)"
    by (simp add: auto_apply_to_jobs_def example_env_def accepting_env_def ready_agent_def
        check_existing_application_def submitted_def)
  obtain out a where run2: "auto_apply_to_jobs accepting_env (ready_agent 10 10) 1 [7] = (out, a)"
    by (cases "auto_apply_to_jobs accepting_env (ready_agent 10 10) 1 [7]")
  have full: "applications_today (ready_agent 10 10)
      \<ge> max_applications_per_day (ready_agent 10 10)"
    by (simp add: ready_agent_def)
  have br: "browser (ready_agent 10 10) \<noteq> NoBrowser"
    by (simp add: ready_agent_def)
  from daily_limit [OF run, of "()" "[]"]
  have a: "applications_today (ready_agent 2 10)
     = applications_today (ready_agent 0 10)
       + int (length (filter success
           [submitted 1, exception_result 2 ''submission error'', submitted 3]))"
    and b: "applications_today (ready_agent 2 10)
       \<le> max (applications_today (ready_agent 0 10))
           (max_applications_per_day (ready_agent 0 10))"
    by blast+
  from b have b': "applications_today (ready_agent 2 10) \<le> 10"
    by (simp add: ready_agent_def)
  from daily_limit [OF run2, of "()" "[]"] full br
  have "a = ready_agent 10 10" and "out = Inr []"
    and l: "apply_loop accepting_env () 1 [7] ([], ready_agent 10 10) = ([], ready_agent 10 10)"
    by simp_all
  with run2 have r2: "auto_apply_to_jobs accepting_env (ready_agent 10 10) 1 [7]
      = (Inr [], ready_agent 10 10)" by simp
  from run a b' r2 l show ?thesis by blast
qed

text \<open>
  C4 as stated promises a reset of the counter by the first dispatch after a day
  boundary. A dispatch reads no clock: with the counter at the ceiling of 10 it returns
  no result and leaves the counter at 10 on whatever day it runs, while the count the
  agent would read from \<open>_get_applications_today\<close> is 0.
\<close>

theorem daily_reset_counterexample:
  "auto_apply_to_jobs accepting_env (ready_agent 10 10) 1 [7] = (Inr [], ready_agent 10 10)
   \<and> applications_today (ready_agent 10 10) = 10
   \<and> get_applications_today = 0"
  by (simp add: auto_apply_to_jobs_def accepting_env_def ready_agent_def
      get_applications_today_def)

lemma apply_loop_processed:
  "fst (apply_loop env up uid jids (rs, agent))
     = rs @ List.map_filter (task_result env up uid)
              (take (processed_tasks env up uid jids (applications_today agent)
                       (max_applications_per_day agent)) jids)"
proof (induction jids arbitrary: rs agent)
  case Nil
  show ?case by (simp add: List.map_filter_simps)
next
  case (Cons jid rest)
  show ?case
  proof (cases "applications_today agent \<ge> max_applications_per_day agent")
    case True
    then show ?thesis by (simp add: List.map_filter_simps)
  next
    case False
    note open_quota = this
    show ?thesis
    proof (cases "get_job_details env jid")
      case None
      then have tr: "task_result env up uid jid = None"
        by (simp add: task_result_def)
      from None open_quota Cons.IH [of rs agent] show ?thesis
        by (simp add: tr List.map_filter_simps)
    next
      case (Some job)
      show ?thesis
      proof (cases "apply_to_job env up job")
        case (Inl e)
        with Some have tr: "task_result env up uid jid = Some (exception_result jid e)"
          by (simp add: task_result_def check_existing_application_def)
        have ns: "\<not> success (exception_result jid e)"
          by (simp add: exception_result_def)
        from Inl Some open_quota Cons.IH [of "rs @ [exception_result jid e]" agent] ns
        show ?thesis
          by (simp add: tr List.map_filter_simps check_existing_application_def)
      next
        case (Inr r)
        with Some have tr: "task_result env up uid jid = Some r"
          by (simp add: task_result_def check_existing_application_def)
        show ?thesis
        proof (cases "success r")
          case True
          from True Inr Some open_quota
            Cons.IH [of "rs @ [r]" "agent\<lparr>applications_today := applications_today agent + 1\<rparr>"]
          show ?thesis
            by (simp add: tr List.map_filter_simps check_existing_application_def)
        next
          case False
          from False Inr Some open_quota Cons.IH [of "rs @ [r]" agent] show ?thesis
            by (simp add: tr List.map_filter_simps check_existing_application_def)
        qed
      qed
    qed
  qed
qed

lemma processed_tasks_no_success:
  "(\<And>jid. jid \<in> set jids \<Longrightarrow> \<not> succeeded (task_result env up uid jid)) \<Longrightarrow>
   today < limit \<Longrightarrow> processed_tasks env up uid jids today limit = length jids"
  by (induction jids) simp_all

lemma processed_tasks_lower:
  "min (length jids) (nat (limit - today)) \<le> processed_tasks env up uid jids today limit"
proof (induction jids arbitrary: today)
  case Nil
  show ?case by simp
next
  case (Cons jid rest)
  show ?case
  proof (cases "today \<ge> limit")
    case True
    then show ?thesis by simp
  next
    case False
    let ?t = "if succeeded (task_result env up uid jid) then today + 1 else today"
    have "min (length rest) (nat (limit - ?t)) \<le> processed_tasks env up uid rest ?t limit"
      by (rule Cons.IH)
    moreover have "nat (limit - today) \<le> Suc (nat (limit - (today + 1)))" by linarith
    then have "nat (limit - today) \<le> Suc (nat (limit - ?t))" by simp
    ultimately show ?thesis using False by (simp add: min_def split: if_splits)
  qed
qed

lemma processed_tasks_upper: "processed_tasks env up uid jids today limit \<le> length jids"
  by (induction jids arbitrary: today) simp_all

lemma auto_apply_processed:
  assumes run: "auto_apply_to_jobs env agent uid jids = (Inr results, agent')"
    and br: "browser agent \<noteq> NoBrowser"
    and prof: "get_user_profile env uid = Inr (Some up)"
  shows "results = List.map_filter (task_result env up uid)
           (take (processed_tasks env up uid jids (applications_today agent)
                    (max_applications_per_day agent)) jids)"
proof (cases "applications_today agent \<ge> max_applications_per_day agent")
  case True
  then have "processed_tasks env up uid jids (applications_today agent)
                    (max_applications_per_day agent) = 0"
    by (cases jids) simp_all
  moreover from True br run have "results = []"
    by (simp add: auto_apply_to_jobs_def)
  ultimately show ?thesis by (simp add: List.map_filter_simps)
next
  case False
  obtain rs a where loop: "apply_loop env up uid jids ([], agent) = (rs, a)"
    by (cases "apply_loop env up uid jids ([], agent)")
  from apply_loop_processed [of env up uid jids "[]" agent] loop
  have rs: "rs = List.map_filter (task_result env up uid)
           (take (processed_tasks env up uid jids (applications_today agent)
                    (max_applications_per_day agent)) jids)" by simp
  from False br prof run loop have "results = rs"
    by (auto simp: auto_apply_to_jobs_def split: option.splits)
  with rs show ?thesis by simp
qed

text \<open>
  C5 (as amended). Whenever \<open>auto_apply_to_jobs\<close> returns, it returns at most one result per
  task, in task order. Without a browser or HTTP session it returns one failed result for
  every task. Otherwise, for the profile \<open>up\<close> that was found, the results are those of
  the tasks processed: the first \<open>processed_tasks\<close> tasks of the batch, a prefix that ends
  only where the daily counter has reached the limit. It holds at least
  \<open>min (len(job_ids)) (max_applications_per_day - applications_today)\<close> tasks, and the
  whole batch when no task of the batch ends in a successful submission and the limit is
  not reached at entry. A processed task contributes no result when its job is not found
  and exactly one otherwise: the answer of \<open>_apply_to_job\<close>, or, when the submission
  raises, the failed result that the \<open>except\<close> clause of the loop builds; in both cases
  the loop goes on to the next task. In particular, for an agent with an HTTP session and
  a limit of ten, three tasks of which the second raises in its submission give three
  results, the second one failed, the first and the third answered by their handler.
\<close>

theorem dispatch_results:
  assumes run: "auto_apply_to_jobs env agent uid jids = (Inr results, agent')"
  shows "length results \<le> length jids
   \<and> (browser agent = NoBrowser \<longrightarrow> results = map unavailable_result jids)
   \<and> (browser agent \<noteq> NoBrowser \<and> get_user_profile env uid = Inr (Some up) \<longrightarrow>
        results = List.map_filter (task_result env up uid)
           (take (processed_tasks env up uid jids (applications_today agent)
                    (max_applications_per_day agent)) jids))
   \<and> min (length jids) (nat (max_applications_per_day agent - applications_today agent))
       \<le> processed_tasks env up uid jids (applications_today agent)
            (max_applications_per_day agent)
   \<and> ((\<forall>j \<in> set jids. \<not> succeeded (task_result env up uid j))
        \<and> applications_today agent < max_applications_per_day agent \<longrightarrow>
        processed_tasks env up uid jids (applications_today agent)
            (max_applications_per_day agent) = length jids)
   \<and> (get_job_details env jid = None \<longrightarrow> task_result env up uid jid = None)
   \<and> (get_job_details env jid = Some job \<longrightarrow>
        task_result env up uid jid
          = Some (case apply_to_job env up job of
                    Inl e \<Rightarrow> exception_result jid e
                  | Inr application_result \<Rightarrow> application_result))
   \<and> \<not> success (exception_result jid e)
   \<and> auto_apply_to_jobs raising_env (ready_agent 0 10) 1 [1, 2, 3]
     = (Inr [manual_required 1,
             exception_result 2 ''argument of type NoneType is not iterable'',
             manual_required 3],
        ready_agent 0 10)"
proof -
  have len: "length results \<le> length jids"
    using auto_apply_counter [OF run] by blast
  have nb: "browser agent = NoBrowser \<longrightarrow> results = map unavailable_result jids"
    using run by (auto simp: auto_apply_to_jobs_def)
  have pr: "browser agent \<noteq> NoBrowser \<and> get_user_profile env uid = Inr (Some up) \<longrightarrow>
        results = List.map_filter (task_result env up uid)
           (take (processed_tasks env up uid jids (applications_today agent)
                    (max_applications_per_day agent)) jids)"
    using auto_apply_processed [OF run] by blast
  have lo: "min (length jids) (nat (max_applications_per_day agent - applications_today agent))
       \<le> processed_tasks env up uid jids (applications_today agent)
            (max_applications_per_day agent)"
    by (rule processed_tasks_lower)
  have al: "(\<forall>j \<in> set jids. \<not> succeeded (task_result env up uid j))
        \<and> applications_today agent < max_applications_per_day agent \<longrightarrow>
        processed_tasks env up uid jids (applications_today agent)
            (max_applications_per_day agent) = length jids"
    using processed_tasks_no_success [of jids env up uid] by blast
  have t0: "get_job_details env jid = None \<longrightarrow> task_result env up uid jid = None"
    by (simp add: task_result_def)
  have t1: "get_job_details env jid = Some job \<longrightarrow>
        task_result env up uid jid
          = Some (case apply_to_job env up job of
                    Inl e \<Rightarrow> exception_result jid e
                  | Inr application_result \<Rightarrow> application_result)"
    by (simp add: task_result_def check_existing_application_def)
  have ns: "\<not> success (exception_result jid e)"
    by (simp add: exception_result_def)
  have sc: "auto_apply_to_jobs raising_env (ready_agent 0 10) 1 [1, 2, 3]
     = (Inr [manual_required 1,
             exception_result 2 ''argument of type NoneType is not iterable'',
             manual_required 3],
        ready_agent 0 10)"
    by (simp add: auto_apply_to_jobs_def raising_env_def manual_env_def ready_agent_def
        check_existing_application_def manual_required_def)
  from len nb pr lo al t0 t1 ns sc show ?thesis by (intro conjI)
qed

text \<open>
  The theorem at the scenario, where the submission for task 2 raises (as
  \<open>_determine_application_method\<close> does for a listing whose \<open>apply_url\<close> is \<open>None\<close>): all
  three tasks are processed and each leaves its result. Without a session the same batch
  gives three failed results.
\<close>

theorem dispatch_results_witness:
  "auto_apply_to_jobs raising_env (ready_agent 0 10) 1 [1, 2, 3]
     = (Inr [manual_required 1,
             exception_result 2 ''argument of type NoneType is not iterable'',
             manual_required 3],
        ready_agent 0 10)
   \<and> List.map_filter (task_result raising_env () 1) [1, 2, 3]
     = [manual_required 1,
        exception_result 2 ''argument of type NoneType is not iterable'',
        manual_required 3]
   \<and> processed_tasks raising_env () 1 [1, 2, 3] 0 10 = 3
   \<and> fst (auto_apply_to_jobs raising_env (autoapply_init 10) 1 [1, 2, 3])
     = Inr (map unavailable_result [1, 2, 3])"
proof -
  let ?rs = "[manual_required 1,
             exception_result 2 ''argument of type NoneType is not iterable'',
             manual_required 3]"
  have run: "auto_apply_to_jobs raising_env (ready_agent 0 10) 1 [1, 2, 3]
     = (Inr ?rs, ready_agent 0 10)"
    by (simp add: auto_apply_to_jobs_def raising_env_def manual_env_def ready_agent_def
        check_existing_application_def manual_required_def)
  have br: "browser (ready_agent 0 10) \<noteq> NoBrowser
      \<and> get_user_profile raising_env 1 = Inr (Some ())"
    by (simp add: ready_agent_def raising_env_def manual_env_def)
  have fields: "applications_today (ready_agent 0 10) = 0"
    "max_applications_per_day (ready_agent 0 10) = 10"
    by (simp_all add: ready_agent_def)
  have t1: "task_result raising_env () 1 1 = Some (manual_required 1)"
    and t2: "task_result raising_env () 1 2
       = Some (exception_result 2 ''argument of type NoneType is not iterable'')"
    and t3: "task_result raising_env () 1 3 = Some (manual_required 3)"
    by (simp_all add: task_result_def raising_env_def manual_env_def
        check_existing_application_def)
  have nosucc: "(\<forall>j \<in> set [1, 2, 3 :: int]. \<not> succeeded (task_result raising_env () 1 j))
      \<and> applications_today (ready_agent 0 10) < max_applications_per_day (ready_agent 0 10)"
    by (simp add: t1 t2 t3 fields manual_required_def exception_result_def)
  note all = dispatch_results [OF run, of "()", THEN conjunct2, THEN conjunct2, THEN conjunct2,
      THEN conjunct2, THEN conjunct1, THEN mp, OF nosucc]
  have p3: "processed_tasks raising_env () 1 [1, 2, 3] 0 10 = 3"
    using all by (simp add: fields)
  note res = dispatch_results [OF run, of "()", THEN conjunct2, THEN conjunct2, THEN conjunct1,
      THEN mp, OF br]
  have mf: "List.map_filter (task_result raising_env () 1) [1, 2, 3] = ?rs"
    using res by (simp add: fields p3)
  have nb: "browser (autoapply_init 10) = NoBrowser"
    by (simp add: autoapply_init_def)
  obtain rs0 a0 where
    run0: "auto_apply_to_jobs raising_env (autoapply_init 10) 1 [1, 2, 3] = (Inr rs0, a0)"
    by (simp add: auto_apply_to_jobs_def autoapply_init_def)
  note dispatch_results [OF run0, THEN conjunct2, THEN conjunct1, THEN mp, OF nb]
  then have d: "fst (auto_apply_to_jobs raising_env (autoapply_init 10) 1 [1, 2, 3])
     = Inr (map unavailable_result [1, 2, 3])"
    using run0 by simp
  from run mf p3 d show ?thesis by (intro conjI)
qed

text \<open>
  C5 as stated promises one result per task. A task whose job is not in the database is
  skipped by \<open>continue\<close> and leaves no result, so three tasks give two results here.
\<close>

theorem one_result_per_task_counterexample:
  "auto_apply_to_jobs missing_env (ready_agent 0 10) 1 [1, 2, 3]
     = (Inr [manual_required 1, manual_required 3], ready_agent 0 10)"
  by (simp add: auto_apply_to_jobs_def missing_env_def manual_env_def ready_agent_def
      check_existing_application_def manual_required_def)

section \<open>Properties of the workflow orchestrator\<close>

lemma workflow_error_flag:
  "workflow_running (snd (workflow_error env agent e)) = workflow_running agent"
  by (simp add: workflow_error_def split: option.splits)

lemma trigger_busy:
  "workflow_running agent \<Longrightarrow> trigger_job_search env agent p = (Inr Busy, agent)"
  by (simp add: trigger_job_search_def trigger_enter_def)

lemma trigger_clears_flag:
  "\<not> workflow_running agent \<Longrightarrow> \<not> workflow_running (snd (trigger_job_search env agent p))"
  by (simp add: trigger_job_search_def trigger_enter_def trigger_exit_def split: prod.splits)

lemma exclusive_step: "exclusive s \<Longrightarrow> exclusive (concurrent_step e s)"
proof (cases s)
  case (Pair agent n)
  assume "exclusive s"
  with Pair show ?thesis
    by (cases e) (auto simp: exclusive_def trigger_enter_def trigger_exit_def)
qed

lemma exclusive_run: "exclusive s \<Longrightarrow> exclusive (concurrent_run es s)"
  by (induction es arbitrary: s) (simp_all add: exclusive_step)

lemma trigger_step_busy:
  "workflow_running agent \<Longrightarrow> concurrent_step Trigger (agent, n) = (agent, n)"
  by (simp add: trigger_enter_def)

text \<open>
  C6. A trigger that arrives while a workflow run is running returns the busy answer,
  starts no second run and leaves the state of the agent, and with it the running run,
  unchanged. A trigger that arrives at an idle agent starts a run, and when the call
  returns, whether the run completed, failed or raised, the running flag is cleared.
  Under every interleaving of trigger requests and completions that starts from an idle
  agent, at most one run is running, and the flag is set exactly while one is.
\<close>

theorem workflow_mutual_exclusion:
  "(workflow_running agent \<longrightarrow>
      trigger_job_search env agent search_params = (Inr Busy, agent)
      \<and> concurrent_step Trigger (agent, n) = (agent, n))
   \<and> (\<not> workflow_running agent \<longrightarrow>
      \<not> workflow_running (snd (trigger_job_search env agent search_params))
      \<and> snd (concurrent_run events (agent, 0)) \<le> 1
      \<and> (workflow_running (fst (concurrent_run events (agent, 0)))
           = (snd (concurrent_run events (agent, 0)) = 1)))"
proof (intro conjI impI)
  assume r: "workflow_running agent"
  show "trigger_job_search env agent search_params = (Inr Busy, agent)"
    by (rule trigger_busy [OF r])
  show "concurrent_step Trigger (agent, n) = (agent, n)"
    by (rule trigger_step_busy [OF r])
next
  assume idle: "\<not> workflow_running agent"
  show "\<not> workflow_running (snd (trigger_job_search env agent search_params))"
    by (rule trigger_clears_flag [OF idle])
  from idle have "exclusive (agent, 0)" by (simp add: exclusive_def)
  then have ex: "exclusive (concurrent_run events (agent, 0))" by (rule exclusive_run)
  from ex show "snd (concurrent_run events (agent, 0)) \<le> 1"
    by (simp add: exclusive_def)
  from ex show "workflow_running (fst (concurrent_run events (agent, 0)))
           = (snd (concurrent_run events (agent, 0)) = 1)"
    by (simp add: exclusive_def)
qed

theorem workflow_mutual_exclusion_witness:
  "trigger_job_search quiet_env (supervisor_init\<lparr>workflow_running := True\<rparr>) []
     = (Inr Busy, supervisor_init\<lparr>workflow_running := True\<rparr>)
   \<and> concurrent_step Trigger (supervisor_init\<lparr>workflow_running := True\<rparr>, 1)
     = (supervisor_init\<lparr>workflow_running := True\<rparr>, 1)
   \<and> \<not> workflow_running (snd (trigger_job_search quiet_env supervisor_init []))
   \<and> snd (concurrent_run [Trigger, Trigger, Finish, Trigger] (supervisor_init, 0)) \<le> 1
   \<and> concurrent_run [Trigger, Trigger] (supervisor_init, 0)
     = (supervisor_init\<lparr>workflow_running := True\<rparr>, 1)"
proof -
  have busy: "workflow_running (supervisor_init\<lparr>workflow_running := True\<rparr>)" by simp
  have idle: "\<not> workflow_running supervisor_init" by (simp add: supervisor_init_def)
  from workflow_mutual_exclusion
         [of "supervisor_init\<lparr>workflow_running := True\<rparr>" quiet_env "[]" 1] busy
  have a: "trigger_job_search quiet_env (supervisor_init\<lparr>workflow_running := True\<rparr>) []
     = (Inr Busy, supervisor_init\<lparr>workflow_running := True\<rparr>)"
    and b: "concurrent_step Trigger (supervisor_init\<lparr>workflow_running := True\<rparr>, 1)
     = (supervisor_init\<lparr>workflow_running := True\<rparr>, 1)"
    by blast+
  from workflow_mutual_exclusion
         [of supervisor_init quiet_env "[]" _ "[Trigger, Trigger, Finish, Trigger]"] idle
  have c: "\<not> workflow_running (snd (trigger_job_search quiet_env supervisor_init []))"
    and d: "snd (concurrent_run [Trigger, Trigger, Finish, Trigger] (supervisor_init, 0)) \<le> 1"
    by blast+
  have e: "concurrent_run [Trigger, Trigger] (supervisor_init, 0)
     = (supervisor_init\<lparr>workflow_running := True\<rparr>, 1)"
    by (simp add: trigger_enter_def supervisor_init_def)
  from a b c d e show ?thesis by blast
qed

lemma update_rejected:
  "\<not> dom u \<subseteq> valid_keys \<Longrightarrow>
   update_configuration env agent u = (ConfigRejected (dom u - valid_keys), agent)"
  by (auto simp: update_configuration_def Let_def)

lemma update_applied:
  "dom u \<subseteq> valid_keys \<Longrightarrow>
   snd (update_configuration env agent u) = agent\<lparr>config := config agent ++ u\<rparr>"
  by (auto simp: update_configuration_def Let_def split: option.splits)

lemma update_reported:
  "dom u \<subseteq> valid_keys \<Longrightarrow> log_activity env ''config_update'' = None \<Longrightarrow>
   fst (update_configuration env agent u) = ConfigUpdated (config agent ++ u)"
  by (auto simp: update_configuration_def Let_def)

text \<open>
  C8 (as amended). The recognized keys are \<open>scraping_interval_hours\<close>,
  \<open>scoring_threshold\<close>, \<open>max_auto_applications\<close>, \<open>auto_apply_enabled\<close> and
  \<open>follow_up_interval_days\<close>; \<open>max_applications_per_day\<close> is not among them. An update
  that contains any other key is rejected as a whole, with the offending keys, and leaves
  the agent unchanged. An update that contains recognized keys only changes nothing but
  the configuration, where it applies all of its entries, and reports success when the
  activity log accepts the entry.
\<close>

theorem configuration_update:
  "(\<not> dom config_updates \<subseteq> valid_keys \<longrightarrow>
      update_configuration env agent config_updates
        = (ConfigRejected (dom config_updates - valid_keys), agent))
   \<and> (dom config_updates \<subseteq> valid_keys \<longrightarrow>
      snd (update_configuration env agent config_updates)
        = agent\<lparr>config := config agent ++ config_updates\<rparr>
      \<and> (\<forall>k \<in> dom config_updates.
            config (snd (update_configuration env agent config_updates)) k = config_updates k)
      \<and> (log_activity env ''config_update'' = None \<longrightarrow>
            fst (update_configuration env agent config_updates)
              = ConfigUpdated (config agent ++ config_updates)))
   \<and> valid_keys
       = {''scraping_interval_hours'', ''scoring_threshold'', ''max_auto_applications'',
          ''auto_apply_enabled'', ''follow_up_interval_days''}
   \<and> ''max_applications_per_day'' \<notin> valid_keys"
proof (intro conjI impI ballI)
  assume "\<not> dom config_updates \<subseteq> valid_keys"
  then show "update_configuration env agent config_updates
        = (ConfigRejected (dom config_updates - valid_keys), agent)"
    by (rule update_rejected)
next
  assume ok: "dom config_updates \<subseteq> valid_keys"
  show "snd (update_configuration env agent config_updates)
        = agent\<lparr>config := config agent ++ config_updates\<rparr>"
    by (rule update_applied [OF ok])
next
  fix k
  assume ok: "dom config_updates \<subseteq> valid_keys" and k: "k \<in> dom config_updates"
  from k obtain v where "config_updates k = Some v" by blast
  then show "config (snd (update_configuration env agent config_updates)) k = config_updates k"
    by (simp add: update_applied [OF ok] map_add_Some_iff)
next
  assume ok: "dom config_updates \<subseteq> valid_keys"
    and lg: "log_activity env ''config_update'' = None"
  show "fst (update_configuration env agent config_updates)
              = ConfigUpdated (config agent ++ config_updates)"
    by (rule update_reported [OF ok lg])
next
  show "valid_keys
       = {''scraping_interval_hours'', ''scoring_threshold'', ''max_auto_applications'',
          ''auto_apply_enabled'', ''follow_up_interval_days''}"
    by (rule valid_keys_def)
next
  show "''max_applications_per_day'' \<notin> valid_keys"
    by (simp add: valid_keys_def)
qed

theorem configuration_update_witness:
  "update_configuration quiet_env supervisor_init
       [''scoring_threshold'' \<mapsto> PNum (1 / 2), ''bogus'' \<mapsto> PInt 1]
     = (ConfigRejected {''bogus''}, supervisor_init)
   \<and> update_configuration quiet_env supervisor_init
       [''scoring_threshold'' \<mapsto> PNum (1 / 2), ''auto_apply_enabled'' \<mapsto> PBool True]
     = (ConfigUpdated
          (config supervisor_init
             ++ [''scoring_threshold'' \<mapsto> PNum (1 / 2), ''auto_apply_enabled'' \<mapsto> PBool True]),
        supervisor_init\<lparr>config := config supervisor_init
             ++ [''scoring_threshold'' \<mapsto> PNum (1 / 2), ''auto_apply_enabled'' \<mapsto> PBool True]\<rparr>)
   \<and> config (snd (update_configuration quiet_env supervisor_init
       [''scoring_threshold'' \<mapsto> PNum (1 / 2), ''auto_apply_enabled'' \<mapsto> PBool True]))
       ''scoring_threshold'' = Some (PNum (1 / 2))
   \<and> config (snd (update_configuration quiet_env supervisor_init
       [''scoring_threshold'' \<mapsto> PNum (1 / 2), ''auto_apply_enabled'' \<mapsto> PBool True]))
       ''scraping_interval_hours'' = Some (PInt 24)"
proof -
  let ?bad = "[''scoring_threshold'' \<mapsto> PNum (1 / 2), ''bogus'' \<mapsto> PInt 1]"
  let ?good = "[''scoring_threshold'' \<mapsto> PNum (1 / 2), ''auto_apply_enabled'' \<mapsto> PBool True]"
  have bad: "\<not> dom ?bad \<subseteq> valid_keys" by (simp add: valid_keys_def)
  have badk: "dom ?bad - valid_keys = {''bogus''}" by (auto simp: valid_keys_def)
  have good: "dom ?good \<subseteq> valid_keys" by (simp add: valid_keys_def)
  have lg: "log_activity quiet_env ''config_update'' = None" by (simp add: quiet_env_def)
  have k: "''scoring_threshold'' \<in> dom ?good" by simp
  note rej = configuration_update [of ?bad quiet_env supervisor_init, THEN conjunct1, THEN mp, OF bad]
  have a: "update_configuration quiet_env supervisor_init ?bad
     = (ConfigRejected {''bogus''}, supervisor_init)"
    using rej by (simp only: badk)
  note acc = configuration_update [of ?good quiet_env supervisor_init,
      THEN conjunct2, THEN conjunct1, THEN mp, OF good]
  note s = acc [THEN conjunct1]
  note e = acc [THEN conjunct2, THEN conjunct1]
  note f = acc [THEN conjunct2, THEN conjunct2, THEN mp, OF lg]
  from s f have b: "update_configuration quiet_env supervisor_init ?good
     = (ConfigUpdated (config supervisor_init ++ ?good),
        supervisor_init\<lparr>config := config supervisor_init ++ ?good\<rparr>)"
    by (simp add: prod_eq_iff)
  from e [THEN bspec, OF k]
  have c: "config (snd (update_configuration quiet_env supervisor_init ?good))
       ''scoring_threshold'' = Some (PNum (1 / 2))" by simp
  from s have d: "config (snd (update_configuration quiet_env supervisor_init ?good))
       ''scraping_interval_hours'' = Some (PInt 24)"
    by (simp add: supervisor_init_def map_add_def)
  from a b c d show ?thesis by (intro conjI)
qed

text \<open>
  C8 as stated counts \<open>max_applications_per_day\<close> among the recognized keys. An update
  of that key alone is rejected and the configuration stays as it was.
\<close>

theorem recognized_keys_counterexample:
  "update_configuration quiet_env supervisor_init [''max_applications_per_day'' \<mapsto> PInt 5]
     = (ConfigRejected {''max_applications_per_day''}, supervisor_init)"
  by (auto simp: update_configuration_def Let_def valid_keys_def)

section \<open>Properties of the result cache\<close>

lemma cache_valid_iff:
  "search_results_cache agent key = Some r \<Longrightarrow>
   is_cache_valid agent t key = (t - timestamp r < max_cache_age agent)"
  by (simp add: is_cache_valid_def)

lemma cache_hit:
  "search_results_cache agent (create_cache_key p) = Some r \<Longrightarrow>
   now_valid clk - timestamp r < max_cache_age agent \<Longrightarrow>
   simple_trigger_job_search env clk agent p = (r, agent)"
  by (simp add: simple_trigger_job_search_def is_cache_valid_def Let_def)

lemma cache_miss_recomputed:
  assumes miss: "\<not> is_cache_valid agent (now_valid clk) (create_cache_key p)"
  shows "result_jobs (fst (simple_trigger_job_search env clk agent p))
           = map response_job (scrape_jobs env p)
         \<and> timestamp (fst (simple_trigger_job_search env clk agent p)) = now_stamp clk
         \<and> cache_key (fst (simple_trigger_job_search env clk agent p)) = create_cache_key p
         \<and> search_results_cache (snd (simple_trigger_job_search env clk agent p))
               (create_cache_key p)
             = Some (fst (simple_trigger_job_search env clk agent p))"
  using miss by (simp add: simple_trigger_job_search_def Let_def)

lemma python_query_key: "create_cache_key python_query = ''python|remote|50''"
  by code_simp

lemma cached_agent_entry:
  "search_results_cache cached_agent (create_cache_key python_query) = Some old_response"
  by (simp add: python_query_key cached_agent_def)

lemma cached_agent_age:
  "max_cache_age cached_agent = 3600000000" "timestamp old_response = 0"
  by (simp_all add: cached_agent_def simple_supervisor_init_def timedelta_hours_def
      old_response_def)

text \<open>
  C7. The cache key of a query is built from its lower-cased, trimmed keywords and
  location and the requested result count (50 when absent). A lookup whose key has an
  entry in the cache is a hit if and only if the time since the timestamp of the entry
  is less than \<open>max_cache_age\<close>, which is one hour by default. A hit returns the cached
  payload itself, whatever the sites would offer, and leaves the agent unchanged. On a
  miss, and so after the time to live of the entry has expired, the search is
  recomputed: the payload holds the listings of a new run of the scraper and the current
  time as its timestamp, and it is stored under the key, replacing the old entry.
\<close>

theorem cache_lookup:
  "(search_results_cache agent (create_cache_key p) = Some r \<longrightarrow>
      is_cache_valid agent t (create_cache_key p) = (t - timestamp r < max_cache_age agent))
   \<and> (search_results_cache agent (create_cache_key p) = Some r
        \<and> now_valid clk - timestamp r < max_cache_age agent \<longrightarrow>
      simple_trigger_job_search env clk agent p = (r, agent))
   \<and> (search_results_cache agent (create_cache_key p) = Some r
        \<and> \<not> now_valid clk - timestamp r < max_cache_age agent \<longrightarrow>
      result_jobs (fst (simple_trigger_job_search env clk agent p))
        = map response_job (scrape_jobs env p)
      \<and> timestamp (fst (simple_trigger_job_search env clk agent p)) = now_stamp clk
      \<and> search_results_cache (snd (simple_trigger_job_search env clk agent p))
            (create_cache_key p)
          = Some (fst (simple_trigger_job_search env clk agent p)))
   \<and> (search_results_cache agent (create_cache_key p) = None \<longrightarrow>
      result_jobs (fst (simple_trigger_job_search env clk agent p))
        = map response_job (scrape_jobs env p)
      \<and> timestamp (fst (simple_trigger_job_search env clk agent p)) = now_stamp clk
      \<and> search_results_cache (snd (simple_trigger_job_search env clk agent p))
            (create_cache_key p)
          = Some (fst (simple_trigger_job_search env clk agent p)))
   \<and> max_cache_age simple_supervisor_init = 3600 * 1000000
   \<and> create_cache_key p
       = str_strip (str_lower (get_or (search_keywords p) []))
         @ ''|'' @ str_strip (str_lower (get_or (search_location p) []))
         @ ''|'' @ str_int (get_or (max_results p) 50)"
proof (intro conjI impI)
  assume "search_results_cache agent (create_cache_key p) = Some r"
  then show "is_cache_valid agent t (create_cache_key p)
      = (t - timestamp r < max_cache_age agent)"
    by (rule cache_valid_iff)
next
  assume "search_results_cache agent (create_cache_key p) = Some r
        \<and> now_valid clk - timestamp r < max_cache_age agent"
  then show "simple_trigger_job_search env clk agent p = (r, agent)"
    using cache_hit by blast
next
  assume "search_results_cache agent (create_cache_key p) = Some r
        \<and> \<not> now_valid clk - timestamp r < max_cache_age agent"
  then have m: "\<not> is_cache_valid agent (now_valid clk) (create_cache_key p)"
    by (simp add: is_cache_valid_def)
  note c = cache_miss_recomputed [OF m, of env]
  show "result_jobs (fst (simple_trigger_job_search env clk agent p))
        = map response_job (scrape_jobs env p)"
    by (rule c [THEN conjunct1])
  show "timestamp (fst (simple_trigger_job_search env clk agent p)) = now_stamp clk"
    by (rule c [THEN conjunct2, THEN conjunct1])
  show "search_results_cache (snd (simple_trigger_job_search env clk agent p))
            (create_cache_key p)
          = Some (fst (simple_trigger_job_search env clk agent p))"
    by (rule c [THEN conjunct2, THEN conjunct2, THEN conjunct2])
next
  assume "search_results_cache agent (create_cache_key p) = None"
  then have m: "\<not> is_cache_valid agent (now_valid clk) (create_cache_key p)"
    by (simp add: is_cache_valid_def)
  note c = cache_miss_recomputed [OF m, of env]
  show "result_jobs (fst (simple_trigger_job_search env clk agent p))
        = map response_job (scrape_jobs env p)"
    by (rule c [THEN conjunct1])
  show "timestamp (fst (simple_trigger_job_search env clk agent p)) = now_stamp clk"
    by (rule c [THEN conjunct2, THEN conjunct1])
  show "search_results_cache (snd (simple_trigger_job_search env clk agent p))
            (create_cache_key p)
          = Some (fst (simple_trigger_job_search env clk agent p))"
    by (rule c [THEN conjunct2, THEN conjunct2, THEN conjunct2])
next
  show "max_cache_age simple_supervisor_init = 3600 * 1000000"
    by (simp add: simple_supervisor_init_def timedelta_hours_def)
next
  show "create_cache_key p
       = str_strip (str_lower (get_or (search_keywords p) []))
         @ ''|'' @ str_strip (str_lower (get_or (search_location p) []))
         @ ''|'' @ str_int (get_or (max_results p) 50)"
    by (rule create_cache_key_def)
qed

theorem cache_lookup_witness:
  "create_cache_key python_query = ''python|remote|50''
   \<and> create_cache_key
       \<lparr>search_keywords = Some ''python'', search_location = Some ''REMOTE '',
        max_results = Some 50\<rparr> = ''python|remote|50''
   \<and> is_cache_valid cached_agent 3599999999 (create_cache_key python_query)
   \<and> \<not> is_cache_valid cached_agent 3600000000 (create_cache_key python_query)
   \<and> simple_trigger_job_search finding_env (clock_at 3599999999) cached_agent python_query
     = (old_response, cached_agent)
   \<and> timestamp
       (fst (simple_trigger_job_search finding_env (clock_at 3600000000) cached_agent
               python_query)) = 3600000000
   \<and> result_jobs
       (fst (simple_trigger_job_search finding_env (clock_at 3600000000) cached_agent
               python_query))
     = [response_job (JobListing ''Backend Engineer'' ''Acme'' [] [] [])]
   \<and> search_results_cache
       (snd (simple_trigger_job_search finding_env (clock_at 3600000000) cached_agent
               python_query))
       (create_cache_key python_query)
     = Some (fst (simple_trigger_job_search finding_env (clock_at 3600000000) cached_agent
                    python_query))
   \<and> timestamp
       (fst (simple_trigger_job_search finding_env (clock_at 7) simple_supervisor_init
               python_query)) = 7"
proof -
  note entry = cached_agent_entry
  have k2: "create_cache_key
       \<lparr>search_keywords = Some ''python'', search_location = Some ''REMOTE '',
        max_results = Some 50\<rparr> = ''python|remote|50''"
    by code_simp
  note valid_iff = cache_lookup [of cached_agent python_query old_response,
      THEN conjunct1, THEN mp, OF entry]
  have v1: "is_cache_valid cached_agent 3599999999 (create_cache_key python_query)"
    by (simp add: valid_iff cached_agent_age)
  have v2: "\<not> is_cache_valid cached_agent 3600000000 (create_cache_key python_query)"
    by (simp add: valid_iff cached_agent_age)
  have fresh: "search_results_cache cached_agent (create_cache_key python_query)
        = Some old_response
      \<and> now_valid (clock_at 3599999999) - timestamp old_response < max_cache_age cached_agent"
    by (simp add: entry cached_agent_age clock_at_def)
  note hit = cache_lookup [of cached_agent python_query old_response _ "clock_at 3599999999"
      finding_env, THEN conjunct2, THEN conjunct1, THEN mp, OF fresh]
  have expired: "search_results_cache cached_agent (create_cache_key python_query)
        = Some old_response
      \<and> \<not> now_valid (clock_at 3600000000) - timestamp old_response
            < max_cache_age cached_agent"
    by (simp add: entry cached_agent_age clock_at_def)
  note over = cache_lookup [of cached_agent python_query old_response _ "clock_at 3600000000"
      finding_env, THEN conjunct2, THEN conjunct2, THEN conjunct1, THEN mp, OF expired]
  have found: "scrape_jobs finding_env python_query
      = [JobListing ''Backend Engineer'' ''Acme'' [] [] []]"
    by code_simp
  have o1: "timestamp
       (fst (simple_trigger_job_search finding_env (clock_at 3600000000) cached_agent
               python_query)) = 3600000000"
    using over [THEN conjunct2, THEN conjunct1] by (simp add: clock_at_def)
  have o2: "result_jobs
       (fst (simple_trigger_job_search finding_env (clock_at 3600000000) cached_agent
               python_query))
     = [response_job (JobListing ''Backend Engineer'' ''Acme'' [] [] [])]"
    using over [THEN conjunct1] by (simp add: found)
  note o3 = over [THEN conjunct2, THEN conjunct2]
  have absent: "search_results_cache simple_supervisor_init (create_cache_key python_query)
      = None"
    by (simp add: simple_supervisor_init_def)
  note first = cache_lookup [of simple_supervisor_init python_query _ _ "clock_at 7"
      finding_env, THEN conjunct2, THEN conjunct2, THEN conjunct2, THEN conjunct1, THEN mp,
      OF absent]
  have f1: "timestamp
       (fst (simple_trigger_job_search finding_env (clock_at 7) simple_supervisor_init
               python_query)) = 7"
    using first [THEN conjunct2, THEN conjunct1] by (simp add: clock_at_def)
  from python_query_key k2 v1 v2 hit o1 o2 o3 f1 show ?thesis by (intro conjI)
qed

end
